theory Spec2Isabelle
  imports Main "HOL-Library.Signed_Division"
begin

section \<open>Outcomes of a call\<close>

text \<open>
  A call of the simulator either returns a value, or stops the whole process on a failed
  \<^verbatim>\<open>ASSERT\<close> / \<^verbatim>\<open>ASSERTNOTREACHED\<close>, or (for the functions that follow sector
  numbers read from the disk) has not returned within the recursion depth it was given.
\<close>

datatype 'a result = Ret 'a | Abort | OutOfFuel

section \<open>Constants of filehdr.h\<close>

text \<open>
  Modelled from the spec: \<^verbatim>\<open>disk.h\<close> is not among the sources. Section 3 of the
  specification and the comments of filehdr.h (3840 bytes = 30 sectors) fix the sector
  size at 128 bytes; \<^verbatim>\<open>sizeof(int)\<close> is 4. The \<^verbatim>\<open>int\<close>s of the source are modelled
  as unbounded integers: the modelled functions compare, divide and subtract the sizes
  they are given and multiply none of them, so no operation leaves the 32-bit range
  for an argument that is a C \<^verbatim>\<open>int\<close>.
\<close>

definition SectorSize :: int where
  "SectorSize = 128"

definition INVALID_SECTOR :: int where
  "INVALID_SECTOR = - 1"

definition LEVEL_LIMIT :: nat where
  "LEVEL_LIMIT = 4"

definition NUM_DIRECT :: int where
  "NUM_DIRECT = (SectorSize - 2 * 4) div 4"

definition MAX_SIZE_L0 :: int where
  "MAX_SIZE_L0 = NUM_DIRECT * SectorSize"

definition MAX_SIZE_L1 :: int where
  "MAX_SIZE_L1 = NUM_DIRECT * NUM_DIRECT * SectorSize"

definition MAX_SIZE_L2 :: int where
  "MAX_SIZE_L2 = NUM_DIRECT * NUM_DIRECT * NUM_DIRECT * SectorSize"

definition MAX_SIZE_L3 :: int where
  "MAX_SIZE_L3 = NUM_DIRECT * NUM_DIRECT * NUM_DIRECT * NUM_DIRECT * SectorSize"

text \<open>
  The array \<^verbatim>\<open>MAX_SIZE[LEVEL_LIMIT]\<close>. The source reads it at indices 0..3 only; the
  last equation makes the function total.
\<close>

fun MAX_SIZE :: "nat \<Rightarrow> int" where
  "MAX_SIZE 0 = MAX_SIZE_L0"
| "MAX_SIZE (Suc 0) = MAX_SIZE_L1"
| "MAX_SIZE (Suc (Suc 0)) = MAX_SIZE_L2"
| "MAX_SIZE (Suc (Suc (Suc n))) = MAX_SIZE_L3"

text \<open>
  \<^verbatim>\<open>FileHeader::whichLv\<close>: the first index \<open>i < LEVEL_LIMIT\<close> with
  \<open>fileSize \<le> MAX_SIZE[i]\<close>; \<^verbatim>\<open>ASSERTNOTREACHED\<close> when there is none.
\<close>

definition whichLv :: "int \<Rightarrow> nat result" where
  "whichLv fileSize =
     (case find (\<lambda>i. fileSize \<le> MAX_SIZE i) [0..<LEVEL_LIMIT] of
        Some i \<Rightarrow> Ret i
      | None \<Rightarrow> Abort)"

section \<open>The free-sector bitmap\<close>

text \<open>
  Modelled from the spec: the bitmap classes (\<^verbatim>\<open>bitmap.cc\<close>, \<^verbatim>\<open>pbitmap.cc\<close>) are not
  among the sources. Section 4.2: bit \<open>i\<close> is set iff sector \<open>i\<close> is allocated;
  \<open>find_and_set\<close> returns the smallest clear index and sets it (the callers test the
  result against 0, so "full" is the value \<open>-1\<close>); \<open>mark\<close> and \<open>clear\<close> are
  unconditional; \<open>num_clear\<close> is the remaining capacity.
\<close>

type_synonym Bitmap = "bool list"

definition NumClear :: "Bitmap \<Rightarrow> int" where
  "NumClear bm = int (length (filter (\<lambda>b. \<not> b) bm))"

definition Test :: "Bitmap \<Rightarrow> int \<Rightarrow> bool" where
  "Test bm which = (0 \<le> which \<and> nat which < length bm \<and> bm ! nat which)"

definition Mark :: "Bitmap \<Rightarrow> int \<Rightarrow> Bitmap" where
  "Mark bm which = (if 0 \<le> which then bm[nat which := True] else bm)"

definition Clear :: "Bitmap \<Rightarrow> int \<Rightarrow> Bitmap" where
  "Clear bm which = (if 0 \<le> which then bm[nat which := False] else bm)"

definition FindAndSet :: "Bitmap \<Rightarrow> int \<times> Bitmap" where
  "FindAndSet bm =
     (case find (\<lambda>i. \<not> bm ! i) [0..<length bm] of
        Some i \<Rightarrow> (int i, bm[i := True])
      | None \<Rightarrow> (- 1, bm))"

section \<open>The file header (filehdr.h, filehdr.cc)\<close>

text \<open>
  The disk part (\<open>numBytes\<close>, \<open>numDataSectors\<close>, the array \<open>dataSectors\<close> of
  \<open>NUM_DIRECT\<close> sector numbers) and the in-core part (\<open>dataSectorMapping\<close> and the
  array \<open>children\<close>). The source fills \<open>children\<close> from index 0 upwards without gaps
  on a freshly constructed header, so the array is kept as the list of its non-null
  prefix, and \<^verbatim>\<open>ASSERT(children[i])\<close> is \<open>i < length children\<close>.
\<close>

datatype FileHeader =
  FileHeader (numBytes: int) (numDataSectors: int) (dataSectors: "int list")
    (dataSectorMapping: "int list") (children: "FileHeader list")

text \<open>The constructor \<^verbatim>\<open>FileHeader::FileHeader()\<close> followed by \<^verbatim>\<open>clear()\<close>.\<close>

definition new_FileHeader :: FileHeader where
  "new_FileHeader =
     FileHeader (- 1) (- 1) (replicate (nat NUM_DIRECT) INVALID_SECTOR) [] []"

text \<open>\<^verbatim>\<open>children[i] = new FileHeader()\<close> on the non-null prefix.\<close>

definition set_child :: "FileHeader list \<Rightarrow> nat \<Rightarrow> FileHeader \<Rightarrow> FileHeader list" where
  "set_child cs i c = (if i < length cs then cs[i := c] else cs @ [c])"

text \<open>
  Modelled from the spec: the macro \<^verbatim>\<open>divRoundUp\<close> (utility.h) is not among the
  sources; section 3 gives \<open>numDataSectors = ceil(numBytes / SectorSize)\<close>.
\<close>

definition divRoundUp :: "int \<Rightarrow> int \<Rightarrow> int" where
  "divRoundUp n s = - ((- n) div s)"

text \<open>
  The level-0 loop of \<^verbatim>\<open>FileHeader::Allocate\<close>:
  \<^verbatim>\<open>for (i = 0; i < numDataSectors; i++) { dataSectors[i] = freeMap->FindAndSet();
  ASSERT(dataSectors[i] >= 0); dataSectorMapping.push_back(dataSectors[i]); }\<close>
\<close>

function Allocate_direct :: "FileHeader \<Rightarrow> Bitmap \<Rightarrow> int \<Rightarrow> (FileHeader \<times> Bitmap) result" where
  "Allocate_direct (FileHeader nb nds ds m cs) freeMap i =
     (if i < nds then
        (case FindAndSet freeMap of
           (s, freeMap') \<Rightarrow>
             if 0 \<le> s
             then Allocate_direct (FileHeader nb nds (ds[nat i := s]) (m @ [s]) cs) freeMap' (i + 1)
             else Abort)
      else Ret (FileHeader nb nds ds m cs, freeMap))"
  by pat_completeness auto
termination
  by (relation "measure (\<lambda>(this, freeMap, i). nat (numDataSectors this - i))") auto

text \<open>
  \<^verbatim>\<open>FileHeader::Allocate(freeMap, fileSize, pSectors)\<close>. The argument \<open>pSectors\<close> is a
  reference: \<open>None\<close> stands for the call of the public two-argument overload, which
  passes the header's own \<open>dataSectorMapping\<close> (the final comparison is then between
  an object and itself); \<open>Some ps\<close> is the recursive call, which passes the parent's
  vector. The last component of the result is the vector behind \<open>pSectors\<close> after the
  call. The value returned by the recursive call is not used by the source.
\<close>

function Allocate3 ::
    "FileHeader \<Rightarrow> Bitmap \<Rightarrow> int \<Rightarrow> int list option \<Rightarrow> (bool \<times> FileHeader \<times> Bitmap \<times> int list) result"
  and Allocate_loop ::
    "FileHeader \<Rightarrow> Bitmap \<Rightarrow> int \<Rightarrow> nat \<Rightarrow> nat \<Rightarrow> (FileHeader \<times> Bitmap) result"
where
  "Allocate3 (FileHeader nb nds ds m cs) freeMap fileSize pSectors =
     (if NumClear freeMap < divRoundUp fileSize SectorSize
      then Ret (False, FileHeader fileSize (divRoundUp fileSize SectorSize) ds m cs, freeMap,
                (case pSectors of None \<Rightarrow> m | Some ps \<Rightarrow> ps))
      else
        (case whichLv fileSize of
           Ret lv \<Rightarrow>
             (case (if lv = 0
                    then Allocate_direct
                           (FileHeader fileSize (divRoundUp fileSize SectorSize) ds m cs) freeMap 0
                    else Allocate_loop
                           (FileHeader fileSize (divRoundUp fileSize SectorSize) ds m cs) freeMap
                           fileSize lv 0) of
                Ret (this', freeMap') \<Rightarrow>
                  Ret (True, this', freeMap',
                       (case pSectors of
                          None \<Rightarrow> dataSectorMapping this'
                        | Some ps \<Rightarrow>
                            if dataSectorMapping this' \<noteq> ps
                            then ps @ dataSectorMapping this' else ps))
              | Abort \<Rightarrow> Abort
              | OutOfFuel \<Rightarrow> OutOfFuel)
         | Abort \<Rightarrow> Abort
         | OutOfFuel \<Rightarrow> OutOfFuel))"
| "Allocate_loop (FileHeader nb nds ds m cs) freeMap fileSize lv i =
     (if 0 < fileSize then
        (case FindAndSet freeMap of
           (s, freeMap1) \<Rightarrow>
             if 0 \<le> s then
               (case Allocate3 new_FileHeader freeMap1 (min fileSize (MAX_SIZE (lv - 1))) (Some m) of
                  Ret (ok, child, freeMap2, m') \<Rightarrow>
                    Allocate_loop (FileHeader nb nds (ds[i := s]) m' (set_child cs i child)) freeMap2
                      (fileSize - min fileSize (MAX_SIZE (lv - 1))) lv (i + 1)
                | Abort \<Rightarrow> Abort
                | OutOfFuel \<Rightarrow> OutOfFuel)
             else Abort)
      else Ret (FileHeader nb nds ds m cs, freeMap))"
  by pat_completeness auto
termination
proof (relation "measures
      [\<lambda>x. case x of
          Inl (this, freeMap, fileSize, pSectors) \<Rightarrow>
            (case whichLv fileSize of Ret lv \<Rightarrow> 2 * lv + 1 | _ \<Rightarrow> 9)
        | Inr (this, freeMap, fileSize, lv, i) \<Rightarrow> 2 * (lv - 1) + 2,
       \<lambda>x. case x of
          Inl (this, freeMap, fileSize, pSectors) \<Rightarrow> 0
        | Inr (this, freeMap, fileSize, lv, i) \<Rightarrow> nat fileSize]", goal_cases)
  case 1
  show ?case by simp
next
  case (2 nb nds ds m cs freeMap fileSize pSectors lv)
  then show ?case by (cases lv) auto
next
  case (3 nb nds ds m cs freeMap fileSize lv i s freeMap1)
  define n where "n = min fileSize (MAX_SIZE (lv - 1))"
  define k where "k = lv - 1"
  have le: "n \<le> MAX_SIZE k" by (simp add: n_def k_def)
  have up: "[0..<LEVEL_LIMIT] = [0, Suc 0, Suc (Suc 0), Suc (Suc (Suc 0))]"
    by (simp add: LEVEL_LIMIT_def upt_rec numeral_eq_Suc)
  have vals: "MAX_SIZE_L0 = 3840" "MAX_SIZE_L1 = 115200" "MAX_SIZE_L2 = 3456000"
    "MAX_SIZE_L3 = 103680000"
    by (simp_all add: MAX_SIZE_L0_def MAX_SIZE_L1_def MAX_SIZE_L2_def MAX_SIZE_L3_def
        NUM_DIRECT_def SectorSize_def)
  consider "k = 0" | "k = Suc 0" | "k = Suc (Suc 0)" | k' where "k = Suc (Suc (Suc k'))"
    by (metis not0_implies_Suc)
  then have "(case whichLv n of Ret l \<Rightarrow> 2 * l + 1 | _ \<Rightarrow> 9) < 2 * k + 2"
  proof cases
    case 1
    with le show ?thesis by (simp add: whichLv_def up vals)
  next
    case 2
    with le show ?thesis by (simp add: whichLv_def up vals)
  next
    case 3
    with le show ?thesis by (simp add: whichLv_def up vals)
  next
    case 4
    with le show ?thesis by (simp add: whichLv_def up vals)
  qed
  then show ?case by (simp add: n_def k_def)
next
  case (4 nb nds ds m cs freeMap fileSize lv i s freeMap1 r ok rest child rest2 freeMap2 m')
  have pos: "0 < MAX_SIZE k" for k
    by (cases k rule: MAX_SIZE.cases)
      (simp_all add: MAX_SIZE_L0_def MAX_SIZE_L1_def MAX_SIZE_L2_def MAX_SIZE_L3_def
        NUM_DIRECT_def SectorSize_def)
  from 4 pos [of "lv - 1"] show ?case by auto
qed

text \<open>The public \<^verbatim>\<open>FileHeader::Allocate(freeMap, fileSize)\<close>.\<close>

definition Allocate :: "FileHeader \<Rightarrow> Bitmap \<Rightarrow> int \<Rightarrow> (bool \<times> FileHeader \<times> Bitmap) result" where
  "Allocate this freeMap fileSize =
     (case Allocate3 this freeMap fileSize None of
        Ret (ok, this', freeMap', ps) \<Rightarrow> Ret (ok, this', freeMap')
      | Abort \<Rightarrow> Abort
      | OutOfFuel \<Rightarrow> OutOfFuel)"

text \<open>
  \<^verbatim>\<open>FileHeader::ByteToSector\<close>. The division of C truncates towards zero; the assertion
  covers the index and the agreement of the vector with \<open>numDataSectors\<close>.
\<close>

definition ByteToSector :: "FileHeader \<Rightarrow> int \<Rightarrow> int result" where
  "ByteToSector this offset =
     (let logicalSector = offset sdiv SectorSize;
          sectorsSz = int (length (dataSectorMapping this))
      in if 0 \<le> logicalSector \<and> logicalSector < sectorsSz \<and> sectorsSz = numDataSectors this
         then Ret (dataSectorMapping this ! nat logicalSector)
         else Abort)"

text \<open>\<^verbatim>\<open>FileHeader::FileLength\<close>.\<close>

definition FileLength :: "FileHeader \<Rightarrow> int" where
  "FileLength this = numBytes this"

text \<open>
  The splitting of section 4.3 in the specification's words: \<open>n\<close> bytes are cut into
  chunks of at most \<open>M\<close> bytes from left to right, one chunk per child; only the rightmost
  chunk may be partial, and there is no empty chunk.
\<close>

definition split_chunks :: "int \<Rightarrow> int \<Rightarrow> int list" where
  "split_chunks n M = replicate (nat (n div M)) M @ (if n mod M = 0 then [] else [n mod M])"

section \<open>The disk\<close>

text \<open>
  Modelled from the spec: the disk and the open-file layer (\<^verbatim>\<open>disk.cc\<close>,
  \<^verbatim>\<open>synchdisk.cc\<close>, \<^verbatim>\<open>openfile.cc\<close>) are not among the sources. Sections 4.1 and 6:
  \<open>read_sector\<close> and \<open>write_sector\<close> are synchronous and indexed by
  \<open>[0, NumSectors)\<close>; any other index is a fatal error. The file header reads a sector
  as \<^verbatim>\<open>int buf[SectorSize / sizeof(int)]\<close>, so a raw sector is a list of 32 integers. The
  content of a file (section 4.4: the entry table of a directory is the content of its file;
  section 4.2: the bitmap is serialised against the content of its file) is kept per list
  of data sectors that hold it; section 6 leaves the byte encoding to the implementation.
  Every write is appended to \<open>writes\<close>, so that the order of the writes of one operation
  can be read off.
\<close>

datatype disk_write = SectorWrite int | DirectoryWrite "int list" | BitmapWrite "int list"

record DirectoryEntry =
  isDir :: bool
  inUse :: bool
  sector :: int
  name :: string

record disk =
  NumSectors :: nat
  sectors :: "int \<Rightarrow> int list"
  dirData :: "int list \<Rightarrow> DirectoryEntry list"
  mapData :: "int list \<Rightarrow> bool list"
  writes :: "disk_write list"

definition ReadSector :: "disk \<Rightarrow> int \<Rightarrow> int list result" where
  "ReadSector d sectorNumber =
     (if 0 \<le> sectorNumber \<and> sectorNumber < int (NumSectors d)
      then Ret (take 32 (sectors d sectorNumber @ replicate 32 0))
      else Abort)"

definition WriteSector :: "disk \<Rightarrow> int \<Rightarrow> int list \<Rightarrow> unit result \<times> disk" where
  "WriteSector d sectorNumber buf =
     (if 0 \<le> sectorNumber \<and> sectorNumber < int (NumSectors d)
      then (Ret (), d\<lparr>sectors := (sectors d)(sectorNumber := buf),
                       writes := writes d @ [SectorWrite sectorNumber]\<rparr>)
      else (Abort, d))"

section \<open>Reading and writing file headers\<close>

text \<open>
  The level-0 loop of \<^verbatim>\<open>FileHeader::FetchFrom\<close> pushes \<open>dataSectors[0 .. numDataSectors)\<close>.
  A count above \<open>NUM_DIRECT\<close> would read past the array; that undefined behaviour is
  taken as a stop.
\<close>

definition FetchFrom_direct :: "FileHeader \<Rightarrow> FileHeader result" where
  "FetchFrom_direct this =
     (if NUM_DIRECT < numDataSectors this then Abort
      else Ret (FileHeader (numBytes this) (numDataSectors this) (dataSectors this)
                  (dataSectorMapping this @ take (nat (numDataSectors this)) (dataSectors this))
                  (children this)))"

text \<open>
  \<^verbatim>\<open>FileHeader::FetchFrom(sector, pSectors)\<close>. The level of a child is computed from the
  \<open>numBytes\<close> read from the child's own sector, so the depth of the recursion is decided
  by the disk; \<open>fuel\<close> bounds it, and \<open>OutOfFuel\<close> says that the call has not returned
  within that depth. \<open>pSectors\<close> is treated as in \<open>Allocate3\<close>.
\<close>

function FetchFrom3 ::
    "nat \<Rightarrow> disk \<Rightarrow> FileHeader \<Rightarrow> int \<Rightarrow> int list option \<Rightarrow> (FileHeader \<times> int list) result"
  and FetchFrom_loop :: "nat \<Rightarrow> disk \<Rightarrow> FileHeader \<Rightarrow> nat \<Rightarrow> FileHeader result"
where
  "FetchFrom3 0 d this sectorNumber pSectors = OutOfFuel"
| "FetchFrom3 (Suc fuel) d (FileHeader nb nds ds m cs) sectorNumber pSectors =
     (case ReadSector d sectorNumber of
        Ret buf \<Rightarrow>
          (case whichLv (buf ! 0) of
             Ret lv \<Rightarrow>
               (case (if lv = 0
                      then FetchFrom_direct
                             (FileHeader (buf ! 0) (buf ! 1) (take (nat NUM_DIRECT) (drop 2 buf)) m cs)
                      else FetchFrom_loop fuel d
                             (FileHeader (buf ! 0) (buf ! 1) (take (nat NUM_DIRECT) (drop 2 buf)) m cs)
                             0) of
                  Ret this' \<Rightarrow>
                    Ret (this',
                         (case pSectors of
                            None \<Rightarrow> dataSectorMapping this'
                          | Some ps \<Rightarrow>
                              if dataSectorMapping this' \<noteq> ps
                              then ps @ dataSectorMapping this' else ps))
                | Abort \<Rightarrow> Abort
                | OutOfFuel \<Rightarrow> OutOfFuel)
           | Abort \<Rightarrow> Abort
           | OutOfFuel \<Rightarrow> OutOfFuel)
      | Abort \<Rightarrow> Abort
      | OutOfFuel \<Rightarrow> OutOfFuel)"
| "FetchFrom_loop fuel d (FileHeader nb nds ds m cs) i =
     (if i < nat NUM_DIRECT \<and> ds ! i \<noteq> INVALID_SECTOR then
        (case FetchFrom3 fuel d new_FileHeader (ds ! i) (Some m) of
           Ret (child, m') \<Rightarrow>
             FetchFrom_loop fuel d (FileHeader nb nds ds m' (set_child cs i child)) (i + 1)
         | Abort \<Rightarrow> Abort
         | OutOfFuel \<Rightarrow> OutOfFuel)
      else Ret (FileHeader nb nds ds m cs))"
  by pat_completeness auto
termination
  by (relation "measures
      [\<lambda>x. case x of
          Inl (fuel, d, this, sectorNumber, pSectors) \<Rightarrow> 2 * fuel
        | Inr (fuel, d, this, i) \<Rightarrow> 2 * fuel + 1,
       \<lambda>x. case x of
          Inl (fuel, d, this, sectorNumber, pSectors) \<Rightarrow> 0
        | Inr (fuel, d, this, i) \<Rightarrow> nat NUM_DIRECT - i]") auto

text \<open>The public \<^verbatim>\<open>FileHeader::FetchFrom(sector)\<close>, with its assertion.\<close>

definition FetchFrom :: "nat \<Rightarrow> disk \<Rightarrow> FileHeader \<Rightarrow> int \<Rightarrow> FileHeader result" where
  "FetchFrom fuel d this sectorNumber =
     (if dataSectorMapping this = [] then
        (case FetchFrom3 fuel d this sectorNumber None of
           Ret (this', ps) \<Rightarrow> Ret this'
         | Abort \<Rightarrow> Abort
         | OutOfFuel \<Rightarrow> OutOfFuel)
      else Abort)"

text \<open>
  \<^verbatim>\<open>FileHeader::WriteBack\<close>: the header's own sector, then, above level 0, the children
  up to the first sentinel. Data sectors are not written.
\<close>

function WriteBack :: "FileHeader \<Rightarrow> int \<Rightarrow> disk \<Rightarrow> unit result \<times> disk"
  and WriteBack_loop :: "FileHeader \<Rightarrow> nat \<Rightarrow> disk \<Rightarrow> unit result \<times> disk"
where
  "WriteBack this sectorNumber d =
     (case WriteSector d sectorNumber ([numBytes this, numDataSectors this] @ dataSectors this) of
        (Ret u, d1) \<Rightarrow>
          (case whichLv (numBytes this) of
             Ret lv \<Rightarrow> if lv \<noteq> 0 then WriteBack_loop this 0 d1 else (Ret (), d1)
           | Abort \<Rightarrow> (Abort, d1)
           | OutOfFuel \<Rightarrow> (OutOfFuel, d1))
      | (Abort, d1) \<Rightarrow> (Abort, d1)
      | (OutOfFuel, d1) \<Rightarrow> (OutOfFuel, d1))"
| "WriteBack_loop this i d =
     (if i < nat NUM_DIRECT \<and> dataSectors this ! i \<noteq> INVALID_SECTOR then
        (if i < length (children this) then
           (case WriteBack (children this ! i) (dataSectors this ! i) d of
              (Ret u, d1) \<Rightarrow> WriteBack_loop this (i + 1) d1
            | (Abort, d1) \<Rightarrow> (Abort, d1)
            | (OutOfFuel, d1) \<Rightarrow> (OutOfFuel, d1))
         else (Abort, d))
      else (Ret (), d))"
  by pat_completeness auto
termination
proof (relation "measures
      [\<lambda>x. case x of Inl (this, sectorNumber, d) \<Rightarrow> size this
                    | Inr (this, i, d) \<Rightarrow> size this,
       \<lambda>x. case x of Inl (this, sectorNumber, d) \<Rightarrow> nat NUM_DIRECT + 1
                    | Inr (this, i, d) \<Rightarrow> nat NUM_DIRECT - i]", goal_cases)
  case 1
  show ?case by simp
next
  case 2
  then show ?case by simp
next
  case (3 this i d)
  obtain nb nds ds m cs where h: "this = FileHeader nb nds ds m cs" by (cases this)
  have "size (cs ! i) < Suc (size_list size cs)" if "i < length cs"
    using that by (metis less_Suc_eq_le nth_mem size_list_estimation' order_refl)
  with 3 show ?case by (simp add: h)
next
  case 4
  then show ?case by auto
qed

text \<open>
  \<^verbatim>\<open>FileHeader::Deallocate\<close>. At level 0 every data sector must be marked and is cleared;
  above level 0 the call recurses into the children up to the first sentinel. The
  final \<^verbatim>\<open>clear()\<close> resets the in-core header, which every caller then deletes; the
  result is the bitmap.
\<close>

fun Deallocate_direct :: "int list \<Rightarrow> Bitmap \<Rightarrow> Bitmap result" where
  "Deallocate_direct [] freeMap = Ret freeMap"
| "Deallocate_direct (s # ss) freeMap =
     (if Test freeMap s then Deallocate_direct ss (Clear freeMap s) else Abort)"

function Deallocate :: "FileHeader \<Rightarrow> Bitmap \<Rightarrow> Bitmap result"
  and Deallocate_loop :: "FileHeader \<Rightarrow> nat \<Rightarrow> Bitmap \<Rightarrow> Bitmap result"
where
  "Deallocate this freeMap =
     (case whichLv (numBytes this) of
        Ret lv \<Rightarrow>
          if lv = 0
          then Deallocate_direct (take (nat (numDataSectors this)) (dataSectors this)) freeMap
          else Deallocate_loop this 0 freeMap
      | Abort \<Rightarrow> Abort
      | OutOfFuel \<Rightarrow> OutOfFuel)"
| "Deallocate_loop this i freeMap =
     (if i < nat NUM_DIRECT \<and> dataSectors this ! i \<noteq> INVALID_SECTOR then
        (if i < length (children this) then
           (case Deallocate (children this ! i) freeMap of
              Ret freeMap' \<Rightarrow> Deallocate_loop this (i + 1) freeMap'
            | Abort \<Rightarrow> Abort
            | OutOfFuel \<Rightarrow> OutOfFuel)
         else Abort)
      else Ret freeMap)"
  by pat_completeness auto
termination
proof (relation "measures
      [\<lambda>x. case x of Inl (this, freeMap) \<Rightarrow> size this
                    | Inr (this, i, freeMap) \<Rightarrow> size this,
       \<lambda>x. case x of Inl (this, freeMap) \<Rightarrow> nat NUM_DIRECT + 1
                    | Inr (this, i, freeMap) \<Rightarrow> nat NUM_DIRECT - i]", goal_cases)
  case 1
  show ?case by simp
next
  case 2
  then show ?case by simp
next
  case (3 this i freeMap)
  obtain nb nds ds m cs where h: "this = FileHeader nb nds ds m cs" by (cases this)
  have "size (cs ! i) < Suc (size_list size cs)" if "i < length cs"
    using that by (metis less_Suc_eq_le nth_mem size_list_estimation' order_refl)
  with 3 show ?case by (simp add: h)
next
  case 4
  then show ?case by auto
qed

section \<open>Open files, directories and the persistent bitmap\<close>

text \<open>
  Modelled from the spec: \<^verbatim>\<open>openfile.cc\<close> is not among the sources. Section 4.5: opening
  an inode gives a handle whose position starts at zero; the handle owns the header
  fetched from the inode's sector (section 9).
\<close>

record OpenFile =
  hdr :: FileHeader
  seekPosition :: int

definition new_OpenFile :: "nat \<Rightarrow> disk \<Rightarrow> int \<Rightarrow> OpenFile result" where
  "new_OpenFile fuel d sectorNumber =
     (case FetchFrom fuel d new_FileHeader sectorNumber of
        Ret h \<Rightarrow> Ret \<lparr>hdr = h, seekPosition = 0\<rparr>
      | Abort \<Rightarrow> Abort
      | OutOfFuel \<Rightarrow> OutOfFuel)"

text \<open>Constants of directory.h.\<close>

definition NumDirEntries :: nat where
  "NumDirEntries = 64"

definition FileNameMaxLen :: nat where
  "FileNameMaxLen = 9"

definition FILE :: bool where
  "FILE = False"

definition DIR :: bool where
  "DIR = True"

text \<open>
  Modelled from the spec: \<^verbatim>\<open>directory.cc\<close> is not among the sources (directory.h is).
  Section 4.4: a directory is a fixed table of entries; \<open>find\<close> is a linear scan for
  \<open>inUse \<and> entry.name = name \<and> entry.isDir = isDir\<close> and yields the entry's sector or
  \<open>INVALID_SECTOR\<close>; \<open>add\<close> fails iff the table is full and otherwise writes the first
  slot that is not in use; \<open>remove\<close> clears \<open>inUse\<close> in the matching slot and fails if
  there is none; \<open>fetch_from\<close> and \<open>write_back\<close> read and write the whole table as the
  content of the file; \<open>remove_all\<close> handles every entry in use: if it is a directory
  its own \<open>remove_all\<close> runs first, then its inode is read, its data sectors are
  deallocated, its inode sector bit is cleared, and the entry is cleared. An entry name
  holds at most \<open>FileNameMaxLen\<close> bytes.
\<close>

type_synonym Directory = "DirectoryEntry list"

definition new_Directory :: "nat \<Rightarrow> Directory" where
  "new_Directory tableSize = replicate tableSize \<lparr>isDir = False, inUse = False, sector = 0, name = []\<rparr>"

definition Directory_FetchFrom :: "Directory \<Rightarrow> disk \<Rightarrow> OpenFile \<Rightarrow> Directory" where
  "Directory_FetchFrom this d file =
     take (length this) (dirData d (dataSectorMapping (hdr file)) @ new_Directory (length this))"

definition Directory_WriteBack :: "Directory \<Rightarrow> disk \<Rightarrow> OpenFile \<Rightarrow> disk" where
  "Directory_WriteBack this d file =
     d\<lparr>dirData := (dirData d)(dataSectorMapping (hdr file) := this),
       writes := writes d @ [DirectoryWrite (dataSectorMapping (hdr file))]\<rparr>"

definition FindIndex :: "Directory \<Rightarrow> string \<Rightarrow> bool \<Rightarrow> int" where
  "FindIndex this name' isDir' =
     (case find (\<lambda>i. inUse (this ! i) \<and> name (this ! i) = name' \<and> isDir (this ! i) = isDir')
             [0..<length this] of
        Some i \<Rightarrow> int i
      | None \<Rightarrow> - 1)"

definition Directory_Find :: "Directory \<Rightarrow> string \<Rightarrow> bool \<Rightarrow> int" where
  "Directory_Find this name' isDir' =
     (if FindIndex this name' isDir' \<noteq> - 1
      then sector (this ! nat (FindIndex this name' isDir'))
      else INVALID_SECTOR)"

definition Directory_Add :: "Directory \<Rightarrow> string \<Rightarrow> int \<Rightarrow> bool \<Rightarrow> bool \<times> Directory" where
  "Directory_Add this name' newSector isDir' =
     (case find (\<lambda>i. \<not> inUse (this ! i)) [0..<length this] of
        Some i \<Rightarrow>
          (True, this[i := \<lparr>isDir = isDir', inUse = True, sector = newSector,
                           name = take FileNameMaxLen name'\<rparr>])
      | None \<Rightarrow> (False, this))"

definition Directory_Remove :: "Directory \<Rightarrow> string \<Rightarrow> bool \<Rightarrow> bool \<times> Directory" where
  "Directory_Remove this name' isDir' =
     (if FindIndex this name' isDir' = - 1 then (False, this)
      else (True, this[nat (FindIndex this name' isDir') :=
                         (this ! nat (FindIndex this name' isDir'))\<lparr>inUse := False\<rparr>]))"

function RemoveAll :: "nat \<Rightarrow> disk \<Rightarrow> Directory \<Rightarrow> Bitmap \<Rightarrow> (bool \<times> Directory \<times> Bitmap) result"
  and RemoveAll_loop ::
    "nat \<Rightarrow> disk \<Rightarrow> Directory \<Rightarrow> nat \<Rightarrow> Bitmap \<Rightarrow> (Directory \<times> Bitmap) result"
where
  "RemoveAll 0 d this freeMap = OutOfFuel"
| "RemoveAll (Suc fuel) d this freeMap =
     (case RemoveAll_loop fuel d this 0 freeMap of
        Ret (this', freeMap') \<Rightarrow> Ret (True, this', freeMap')
      | Abort \<Rightarrow> Abort
      | OutOfFuel \<Rightarrow> OutOfFuel)"
| "RemoveAll_loop fuel d this i freeMap =
     (if i < length this then
        (if inUse (this ! i) then
           (case (if isDir (this ! i) then
                    (case new_OpenFile fuel d (sector (this ! i)) of
                       Ret file \<Rightarrow>
                         (case RemoveAll fuel d
                                 (Directory_FetchFrom (new_Directory NumDirEntries) d file)
                                 freeMap of
                            Ret (ok, sub, freeMap1) \<Rightarrow> Ret freeMap1
                          | Abort \<Rightarrow> Abort
                          | OutOfFuel \<Rightarrow> OutOfFuel)
                     | Abort \<Rightarrow> Abort
                     | OutOfFuel \<Rightarrow> OutOfFuel)
                  else Ret freeMap) of
              Ret freeMap1 \<Rightarrow>
                (case FetchFrom fuel d new_FileHeader (sector (this ! i)) of
                   Ret fh \<Rightarrow>
                     (case Deallocate fh freeMap1 of
                        Ret freeMap2 \<Rightarrow>
                          RemoveAll_loop fuel d (this[i := (this ! i)\<lparr>inUse := False\<rparr>]) (i + 1)
                            (Clear freeMap2 (sector (this ! i)))
                      | Abort \<Rightarrow> Abort
                      | OutOfFuel \<Rightarrow> OutOfFuel)
                 | Abort \<Rightarrow> Abort
                 | OutOfFuel \<Rightarrow> OutOfFuel)
            | Abort \<Rightarrow> Abort
            | OutOfFuel \<Rightarrow> OutOfFuel)
         else RemoveAll_loop fuel d this (i + 1) freeMap)
      else Ret (this, freeMap))"
  by pat_completeness auto
termination
  by (relation "measures
      [\<lambda>x. case x of
          Inl (fuel, d, this, freeMap) \<Rightarrow> 2 * fuel
        | Inr (fuel, d, this, i, freeMap) \<Rightarrow> 2 * fuel + 1,
       \<lambda>x. case x of
          Inl (fuel, d, this, freeMap) \<Rightarrow> 0
        | Inr (fuel, d, this, i, freeMap) \<Rightarrow> length this - i]") auto

text \<open>
  Modelled from the spec: \<^verbatim>\<open>pbitmap.cc\<close> is not among the sources. Section 4.2:
  \<open>read_from\<close> and \<open>write_back\<close> (de)serialise the bit vector against the content of the
  bitmap file; the constructors give an all-clear vector of \<open>numBits\<close> bits, or the
  vector read from the file. The whole vector of \<open>numBits\<close> bits is kept, also on a
  disk whose number of sectors is not a multiple of 8, where the file of
  \<open>NumSectors / 8\<close> bytes is shorter than the vector.
\<close>

definition new_PersistentBitmap :: "nat \<Rightarrow> Bitmap" where
  "new_PersistentBitmap numBits = replicate numBits False"

definition PersistentBitmap_from :: "disk \<Rightarrow> OpenFile \<Rightarrow> nat \<Rightarrow> Bitmap" where
  "PersistentBitmap_from d file numBits =
     take numBits (mapData d (dataSectorMapping (hdr file)) @ replicate numBits False)"

definition Bitmap_WriteBack :: "Bitmap \<Rightarrow> disk \<Rightarrow> OpenFile \<Rightarrow> disk" where
  "Bitmap_WriteBack this d file =
     d\<lparr>mapData := (mapData d)(dataSectorMapping (hdr file) := this),
       writes := writes d @ [BitmapWrite (dataSectorMapping (hdr file))]\<rparr>"

section \<open>The file system (filesys.h, filesys.cc)\<close>

definition FreeMapSector :: int where
  "FreeMapSector = 0"

definition DirectorySector :: int where
  "DirectorySector = 1"

definition PATH_NAME_MAX_LEN :: nat where
  "PATH_NAME_MAX_LEN = 256"

definition FILE_OPEN_LIMIT :: nat where
  "FILE_OPEN_LIMIT = 20"

text \<open>
  Modelled from the spec: \<^verbatim>\<open>BitsInByte\<close> (bitmap.h) and the layout of
  \<^verbatim>\<open>DirectoryEntry\<close> are fixed by the compiler and headers outside the sources. Section 4.5
  gives the size of the free-map file as \<open>NumSectors / 8\<close> bytes; section 6 says that the
  entry is laid out with natural alignment, which for the fields of directory.h is 20 bytes.
\<close>

definition sizeof_DirectoryEntry :: int where
  "sizeof_DirectoryEntry = 20"

definition FreeMapFileSize :: "disk \<Rightarrow> int" where
  "FreeMapFileSize d = int (NumSectors d) div 8"

definition DirectoryFileSize :: int where
  "DirectoryFileSize = sizeof_DirectoryEntry * int NumDirEntries"

record FileFinder =
  exist :: bool
  pFhSector :: int
  fhSector :: int
  filename :: string

definition new_FileFinder :: FileFinder where
  "new_FileFinder =
     \<lparr>exist = False, pFhSector = INVALID_SECTOR, fhSector = INVALID_SECTOR, filename = []\<rparr>"

text \<open>
  \<^verbatim>\<open>FileFinder::splitPath\<close>: the C string is the list of its characters before the
  terminating NUL. The loop appends the token to the result at every \<open>'/'\<close> and counts
  the characters; the result is the vector with the last token appended, and the flag
  \<open>exceedPathLenLimit\<close>.
\<close>

fun splitPath_loop :: "string \<Rightarrow> string list \<Rightarrow> string \<Rightarrow> nat \<Rightarrow> string list \<times> string \<times> nat" where
  "splitPath_loop [] result token i = (result, token, i)"
| "splitPath_loop (c # str) result token i =
     (if c = CHR ''/'' then splitPath_loop str (result @ [token]) [] (i + 1)
      else splitPath_loop str result (token @ [c]) (i + 1))"

definition splitPath :: "string \<Rightarrow> string list \<times> bool" where
  "splitPath str =
     (case splitPath_loop str [] [] 0 of
        (result, token, i) \<Rightarrow> (result @ [token], PATH_NAME_MAX_LEN \<le> i))"

text \<open>
  The loop of \<^verbatim>\<open>FileFinder::find\<close> over the components \<open>path[1 .. pathSz)\<close>. The parent
  handle \<open>openPfh\<close> is the root handle at first and a freshly opened file afterwards.
\<close>

function find_loop ::
  "nat \<Rightarrow> disk \<Rightarrow> string list \<Rightarrow> bool \<Rightarrow> nat \<Rightarrow> OpenFile \<Rightarrow> FileFinder \<Rightarrow> FileFinder result" where
  "find_loop fuel d path isDir' i openPfh this =
     (if i < length path then
        (if Directory_Find (Directory_FetchFrom (new_Directory NumDirEntries) d openPfh) (path ! i)
              (if i = length path - 1 then isDir' else DIR) = INVALID_SECTOR
         then Ret (this\<lparr>pFhSector := (if i = 1 then DirectorySector else fhSector this),
                        fhSector := INVALID_SECTOR\<rparr>)
         else
           (case new_OpenFile fuel d
                   (Directory_Find (Directory_FetchFrom (new_Directory NumDirEntries) d openPfh)
                      (path ! i) (if i = length path - 1 then isDir' else DIR)) of
              Ret file \<Rightarrow>
                find_loop fuel d path isDir' (i + 1) file
                  (this\<lparr>pFhSector := (if i = 1 then DirectorySector else fhSector this),
                         fhSector :=
                           Directory_Find
                             (Directory_FetchFrom (new_Directory NumDirEntries) d openPfh)
                             (path ! i) (if i = length path - 1 then isDir' else DIR)\<rparr>)
            | Abort \<Rightarrow> Abort
            | OutOfFuel \<Rightarrow> OutOfFuel))
      else Ret (this\<lparr>exist := True\<rparr>))"
  by pat_completeness auto
termination
  by (relation "measure (\<lambda>(fuel, d, path, isDir', i, openPfh, this). length path - i)") auto

text \<open>\<^verbatim>\<open>FileFinder::find\<close>, on the finder object \<open>this\<close>.\<close>

definition FileFinder_find ::
  "nat \<Rightarrow> disk \<Rightarrow> FileFinder \<Rightarrow> string \<Rightarrow> bool \<Rightarrow> OpenFile \<Rightarrow> FileFinder result" where
  "FileFinder_find fuel d this name' isDir' root =
     (case splitPath name' of
        (path, exceedPathLenLimit) \<Rightarrow>
          if exceedPathLenLimit then Ret (this\<lparr>filename := last path\<rparr>)
          else if name' = ''/'' then
            (if isDir'
             then Ret (this\<lparr>filename := last path, exist := True, fhSector := DirectorySector\<rparr>)
             else Abort)
          else find_loop fuel d path isDir' 1 root (this\<lparr>filename := last path\<rparr>))"

record FileSystem =
  freeMapFile :: OpenFile
  directoryFile :: OpenFile
  OpenFileTable :: "OpenFile option list"

text \<open>
  \<^verbatim>\<open>FileSystem::FileSystem(format)\<close>. The disk is returned with the result, also when an
  assertion stops the call.
\<close>

definition FileSystem_open :: "nat \<Rightarrow> disk \<Rightarrow> FileSystem result \<times> disk" where
  "FileSystem_open fuel d =
     (case new_OpenFile fuel d FreeMapSector of
        Ret mapFile \<Rightarrow>
          (case new_OpenFile fuel d DirectorySector of
             Ret dirFile \<Rightarrow>
               (Ret \<lparr>freeMapFile = mapFile, directoryFile = dirFile,
                     OpenFileTable = replicate FILE_OPEN_LIMIT None\<rparr>, d)
           | Abort \<Rightarrow> (Abort, d)
           | OutOfFuel \<Rightarrow> (OutOfFuel, d))
      | Abort \<Rightarrow> (Abort, d)
      | OutOfFuel \<Rightarrow> (OutOfFuel, d))"

definition new_FileSystem :: "nat \<Rightarrow> disk \<Rightarrow> bool \<Rightarrow> FileSystem result \<times> disk" where
  "new_FileSystem fuel d format =
     (if format then
        (case Allocate new_FileHeader
                (Mark (Mark (new_PersistentBitmap (NumSectors d)) FreeMapSector) DirectorySector)
                (FreeMapFileSize d) of
           Ret (ok1, mapHdr, freeMap1) \<Rightarrow>
             if \<not> ok1 then (Abort, d)
             else
               (case Allocate new_FileHeader freeMap1 DirectoryFileSize of
                  Ret (ok2, dirHdr, freeMap2) \<Rightarrow>
                    if \<not> ok2 then (Abort, d)
                    else
                      (case WriteBack mapHdr FreeMapSector d of
                         (Ret u1, d1) \<Rightarrow>
                           (case WriteBack dirHdr DirectorySector d1 of
                              (Ret u2, d2) \<Rightarrow>
                                (case FileSystem_open fuel d2 of
                                   (Ret fs, d3) \<Rightarrow>
                                     (Ret fs,
                                      Directory_WriteBack (new_Directory NumDirEntries)
                                        (Bitmap_WriteBack freeMap2 d3 (freeMapFile fs))
                                        (directoryFile fs))
                                 | (Abort, d3) \<Rightarrow> (Abort, d3)
                                 | (OutOfFuel, d3) \<Rightarrow> (OutOfFuel, d3))
                            | (Abort, d2) \<Rightarrow> (Abort, d2)
                            | (OutOfFuel, d2) \<Rightarrow> (OutOfFuel, d2))
                       | (Abort, d1) \<Rightarrow> (Abort, d1)
                       | (OutOfFuel, d1) \<Rightarrow> (OutOfFuel, d1))
                | Abort \<Rightarrow> (Abort, d)
                | OutOfFuel \<Rightarrow> (OutOfFuel, d))
         | Abort \<Rightarrow> (Abort, d)
         | OutOfFuel \<Rightarrow> (OutOfFuel, d))
      else FileSystem_open fuel d)"

text \<open>
  \<^verbatim>\<open>FileSystem::createFileOrDir\<close>. Every \<^verbatim>\<open>ASSERT\<close> of the source is a branch to
  \<open>Abort\<close>; the in-core bitmap, directory and header are dropped there and the disk is
  as the writes so far left it.
\<close>

definition createFileOrDir ::
  "nat \<Rightarrow> FileSystem \<Rightarrow> disk \<Rightarrow> string \<Rightarrow> bool \<Rightarrow> int \<Rightarrow> bool result \<times> disk" where
  "createFileOrDir fuel fs d name' isDir' initialSize =
     (case FileFinder_find fuel d new_FileFinder name' isDir' (directoryFile fs) of
        Ret finder \<Rightarrow>
          if exist finder then (Ret False, d)
          else if pFhSector finder = INVALID_SECTOR then (Abort, d)
          else
            (case FindAndSet (PersistentBitmap_from d (freeMapFile fs) (NumSectors d)) of
               (sector', freeMap) \<Rightarrow>
                 if sector' < 0 then (Abort, d)
                 else
                   (case new_OpenFile fuel d (pFhSector finder) of
                      Ret openPfh \<Rightarrow>
                        (case Directory_Add
                                (Directory_FetchFrom (new_Directory NumDirEntries) d openPfh)
                                (filename finder) sector' isDir' of
                           (added, pDir) \<Rightarrow>
                             if \<not> added then (Abort, d)
                             else if (if isDir' then int NumDirEntries * sizeof_DirectoryEntry
                                      else initialSize) < 0
                             then (Abort, d)
                             else
                               (case Allocate new_FileHeader freeMap
                                       (if isDir' then int NumDirEntries * sizeof_DirectoryEntry
                                        else initialSize) of
                                  Ret (ok, fh, freeMap') \<Rightarrow>
                                    if \<not> ok then (Abort, d)
                                    else
                                      (case WriteBack fh sector' d of
                                         (Ret u, d1) \<Rightarrow>
                                           (if isDir' then
                                              (case new_OpenFile fuel
                                                      (Bitmap_WriteBack freeMap'
                                                         (Directory_WriteBack pDir d1 openPfh)
                                                         (freeMapFile fs))
                                                      sector' of
                                                 Ret openFh \<Rightarrow>
                                                   (Ret True,
                                                    Directory_WriteBack
                                                      (new_Directory NumDirEntries)
                                                      (Bitmap_WriteBack freeMap'
                                                         (Directory_WriteBack pDir d1 openPfh)
                                                         (freeMapFile fs))
                                                      openFh)
                                               | Abort \<Rightarrow>
                                                   (Abort,
                                                    Bitmap_WriteBack freeMap'
                                                      (Directory_WriteBack pDir d1 openPfh)
                                                      (freeMapFile fs))
                                               | OutOfFuel \<Rightarrow>
                                                   (OutOfFuel,
                                                    Bitmap_WriteBack freeMap'
                                                      (Directory_WriteBack pDir d1 openPfh)
                                                      (freeMapFile fs)))
                                            else
                                              (Ret True,
                                               Bitmap_WriteBack freeMap'
                                                 (Directory_WriteBack pDir d1 openPfh)
                                                 (freeMapFile fs)))
                                       | (Abort, d1) \<Rightarrow> (Abort, d1)
                                       | (OutOfFuel, d1) \<Rightarrow> (OutOfFuel, d1))
                                | Abort \<Rightarrow> (Abort, d)
                                | OutOfFuel \<Rightarrow> (OutOfFuel, d)))
                    | Abort \<Rightarrow> (Abort, d)
                    | OutOfFuel \<Rightarrow> (OutOfFuel, d)))
      | Abort \<Rightarrow> (Abort, d)
      | OutOfFuel \<Rightarrow> (OutOfFuel, d))"

text \<open>\<^verbatim>\<open>FileSystem::Create\<close> and \<^verbatim>\<open>FileSystem::Mkdir\<close>.\<close>

definition Create :: "nat \<Rightarrow> FileSystem \<Rightarrow> disk \<Rightarrow> string \<Rightarrow> int \<Rightarrow> bool result \<times> disk" where
  "Create fuel fs d name' initialSize = createFileOrDir fuel fs d name' FILE initialSize"

definition Mkdir :: "nat \<Rightarrow> FileSystem \<Rightarrow> disk \<Rightarrow> string \<Rightarrow> bool result \<times> disk" where
  "Mkdir fuel fs d name' = createFileOrDir fuel fs d name' DIR (- 1)"

text \<open>
  \<^verbatim>\<open>FileSystem::Open\<close>: the same finder object is used for the second attempt; the
  result is the new handle, and there is no other way to return.
\<close>

definition Open :: "nat \<Rightarrow> FileSystem \<Rightarrow> disk \<Rightarrow> string \<Rightarrow> OpenFile result" where
  "Open fuel fs d name' =
     (case FileFinder_find fuel d new_FileFinder name' FILE (directoryFile fs) of
        Ret finder1 \<Rightarrow>
          (case (if \<not> exist finder1
                 then FileFinder_find fuel d finder1 name' DIR (directoryFile fs)
                 else Ret finder1) of
             Ret finder \<Rightarrow>
               if exist finder \<and> 0 \<le> fhSector finder
               then new_OpenFile fuel d (fhSector finder)
               else Abort
           | Abort \<Rightarrow> Abort
           | OutOfFuel \<Rightarrow> OutOfFuel)
      | Abort \<Rightarrow> Abort
      | OutOfFuel \<Rightarrow> OutOfFuel)"

text \<open>\<^verbatim>\<open>FileSystem::returnSectorsToFreeMap\<close>.\<close>

definition returnSectorsToFreeMap :: "nat \<Rightarrow> disk \<Rightarrow> int \<Rightarrow> Bitmap \<Rightarrow> Bitmap result" where
  "returnSectorsToFreeMap fuel d fhSector' freeMap =
     (if Test freeMap fhSector' then
        (case FetchFrom fuel d new_FileHeader fhSector' of
           Ret fh \<Rightarrow> Deallocate fh (Clear freeMap fhSector')
         | Abort \<Rightarrow> Abort
         | OutOfFuel \<Rightarrow> OutOfFuel)
      else Abort)"

text \<open>
  \<^verbatim>\<open>FileSystem::Remove(name, FALSE)\<close>: the part of \<open>Remove\<close> after the test of
  \<open>recursive\<close>. The bitmap is written back before the parent directory.
\<close>

definition Remove_single :: "nat \<Rightarrow> FileSystem \<Rightarrow> disk \<Rightarrow> string \<Rightarrow> bool result \<times> disk" where
  "Remove_single fuel fs d name' =
     (case FileFinder_find fuel d new_FileFinder name' FILE (directoryFile fs) of
        Ret finder \<Rightarrow>
          if \<not> exist finder then (Ret False, d)
          else
            (case returnSectorsToFreeMap fuel d (fhSector finder)
                    (PersistentBitmap_from d (freeMapFile fs) (NumSectors d)) of
               Ret freeMap \<Rightarrow>
                 (case new_OpenFile fuel d (pFhSector finder) of
                    Ret openPfh \<Rightarrow>
                      (case Directory_Remove
                              (Directory_FetchFrom (new_Directory NumDirEntries) d openPfh)
                              (filename finder) FILE of
                         (removed, pDir) \<Rightarrow>
                           if \<not> removed then (Abort, d)
                           else
                             (Ret True,
                              Directory_WriteBack pDir
                                (Bitmap_WriteBack freeMap d (freeMapFile fs)) openPfh))
                  | Abort \<Rightarrow> (Abort, d)
                  | OutOfFuel \<Rightarrow> (OutOfFuel, d))
             | Abort \<Rightarrow> (Abort, d)
             | OutOfFuel \<Rightarrow> (OutOfFuel, d))
      | Abort \<Rightarrow> (Abort, d)
      | OutOfFuel \<Rightarrow> (OutOfFuel, d))"

text \<open>\<^verbatim>\<open>FileSystem::recursivelyRemove\<close>.\<close>

definition recursivelyRemove :: "nat \<Rightarrow> FileSystem \<Rightarrow> disk \<Rightarrow> string \<Rightarrow> bool result \<times> disk" where
  "recursivelyRemove fuel fs d name' =
     (case FileFinder_find fuel d new_FileFinder name' DIR (directoryFile fs) of
        Ret finder \<Rightarrow>
          if \<not> exist finder then Remove_single fuel fs d name'
          else
            (case new_OpenFile fuel d (fhSector finder) of
               Ret openfh \<Rightarrow>
                 (case RemoveAll fuel d
                         (Directory_FetchFrom (new_Directory NumDirEntries) d openfh)
                         (PersistentBitmap_from d (freeMapFile fs) (NumSectors d)) of
                    Ret (ok, dir, freeMap) \<Rightarrow>
                      if \<not> ok then (Abort, d)
                      else
                        (Ret True,
                         Bitmap_WriteBack freeMap (Directory_WriteBack dir d openfh)
                           (freeMapFile fs))
                  | Abort \<Rightarrow> (Abort, d)
                  | OutOfFuel \<Rightarrow> (OutOfFuel, d))
             | Abort \<Rightarrow> (Abort, d)
             | OutOfFuel \<Rightarrow> (OutOfFuel, d))
      | Abort \<Rightarrow> (Abort, d)
      | OutOfFuel \<Rightarrow> (OutOfFuel, d))"

text \<open>\<^verbatim>\<open>FileSystem::Remove\<close>.\<close>

definition Remove :: "nat \<Rightarrow> FileSystem \<Rightarrow> disk \<Rightarrow> string \<Rightarrow> bool \<Rightarrow> bool result \<times> disk" where
  "Remove fuel fs d name' recursive =
     (if recursive then recursivelyRemove fuel fs d name' else Remove_single fuel fs d name')"

section \<open>Observations and concrete disks\<close>

text \<open>The bitmap and the root directory as they are persisted on a disk.\<close>

definition persisted_bitmap :: "FileSystem \<Rightarrow> disk \<Rightarrow> Bitmap" where
  "persisted_bitmap fs d = PersistentBitmap_from d (freeMapFile fs) (NumSectors d)"

definition root_directory :: "FileSystem \<Rightarrow> disk \<Rightarrow> Directory" where
  "root_directory fs d = Directory_FetchFrom (new_Directory NumDirEntries) d (directoryFile fs)"

text \<open>
  A blank disk of \<open>n\<close> sectors, the disk that formatting it gives, and the file-system
  object that the constructor then returns (for \<open>13 \<le> n\<close>: the bitmap file takes
  sector 2 and the root directory sectors 3 to 12).
\<close>

definition blank_disk :: "nat \<Rightarrow> disk" where
  "blank_disk n =
     \<lparr>NumSectors = n, sectors = (\<lambda>s. []), dirData = (\<lambda>k. []), mapData = (\<lambda>k. []), writes = []\<rparr>"

definition formatted_disk :: "nat \<Rightarrow> disk" where
  "formatted_disk n = snd (new_FileSystem 5 (blank_disk n) True)"

definition formatted_fs :: "nat \<Rightarrow> FileSystem" where
  "formatted_fs n =
     \<lparr>freeMapFile =
        \<lparr>hdr = FileHeader (int n div 8) 1 (2 # replicate 29 (- 1)) [2] [], seekPosition = 0\<rparr>,
      directoryFile =
        \<lparr>hdr = FileHeader 1280 10 (map int [3..<13] @ replicate 20 (- 1)) (map int [3..<13]) [],
          seekPosition = 0\<rparr>,
      OpenFileTable = replicate FILE_OPEN_LIMIT None\<rparr>"

text \<open>The disks of the scenarios of section 8, on 64 sectors.\<close>

definition disk_a :: disk where
  "disk_a = snd (Mkdir 5 (formatted_fs 64) (formatted_disk 64) ''/a'')"

definition disk_d :: disk where
  "disk_d = snd (Mkdir 5 (formatted_fs 64) (formatted_disk 64) ''/d'')"

definition disk_de :: disk where
  "disk_de = snd (Mkdir 5 (formatted_fs 64) disk_d ''/d/e'')"

definition disk_def :: disk where
  "disk_def = snd (Create 5 (formatted_fs 64) disk_de ''/d/e/f'' 10)"

definition disk_f :: disk where
  "disk_f = snd (Create 5 (formatted_fs 64) (formatted_disk 64) ''/f'' 1)"

definition disk_f_removed :: disk where
  "disk_f_removed = snd (Remove 5 (formatted_fs 64) disk_f ''/f'' False)"

definition disk_def_removed :: disk where
  "disk_def_removed = snd (Remove 5 (formatted_fs 64) disk_def ''/d'' True)"

text \<open>
  A directory \<open>/d\<close> that holds one file of 4000 bytes (a level-1 header with two child
  headers), and the disk after its recursive removal.
\<close>

definition disk_dbig :: disk where
  "disk_dbig = snd (Create 5 (formatted_fs 64) disk_d ''/d/big'' 4000)"

definition disk_dbig_removed :: disk where
  "disk_dbig_removed = snd (Remove 5 (formatted_fs 64) disk_dbig ''/d'' True)"

text \<open>
  The header that \<open>Allocate\<close> builds for 3968 bytes (31 data sectors, two children) on
  the bitmap that \<open>createFileOrDir\<close> hands to it on a formatted disk of 46 sectors, where
  exactly 32 sectors are clear after the header sector 13 is taken: the second child
  finds no clear sector left.
\<close>

definition header_3968 :: FileHeader where
  "header_3968 =
     FileHeader 3968 31 ([14, 45] @ replicate 28 (- 1)) (map int [15..<45])
       [FileHeader 3840 30 (map int [15..<45]) (map int [15..<45]) [],
        FileHeader 128 1 (replicate 30 (- 1)) [] []]"

text \<open>
  The update of the finder's sector fields in one turn of the loop of \<open>find\<close>
  (used to state facts about \<open>find_loop\<close>).
\<close>

definition step_finder :: "FileFinder \<Rightarrow> nat \<Rightarrow> int \<Rightarrow> FileFinder" where
  "step_finder this i s =
     this\<lparr>pFhSector := (if i = 1 then DirectorySector else fhSector this), fhSector := s\<rparr>"

text \<open>Scenario 2 of section 8: \<open>create /big 4000\<close> on the formatted disk.\<close>

definition disk_big :: disk where
  "disk_big = snd (Create 5 (formatted_fs 64) (formatted_disk 64) ''/big'' 4000)"

section \<open>Level selection\<close>

lemma MAX_SIZE_L_values:
  "MAX_SIZE_L0 = 3840" "MAX_SIZE_L1 = 115200" "MAX_SIZE_L2 = 3456000"
  "MAX_SIZE_L3 = 103680000"
  by (simp_all add: MAX_SIZE_L0_def MAX_SIZE_L1_def MAX_SIZE_L2_def MAX_SIZE_L3_def
      NUM_DIRECT_def SectorSize_def)

lemma MAX_SIZE_values:
  "MAX_SIZE 0 = 3840" "MAX_SIZE 1 = 115200" "MAX_SIZE 2 = 3456000" "MAX_SIZE 3 = 103680000"
  by (simp_all add: MAX_SIZE_L_values numeral_eq_Suc)

lemma upt_LEVEL_LIMIT: "[0..<LEVEL_LIMIT] = [0, 1, 2, 3]"
  by (simp add: LEVEL_LIMIT_def upt_rec numeral_eq_Suc)

lemma whichLv_cases:
  "whichLv n =
     (if n \<le> 3840 then Ret 0 else if n \<le> 115200 then Ret 1
      else if n \<le> 3456000 then Ret 2 else if n \<le> 103680000 then Ret 3 else Abort)"
  by (simp add: whichLv_def upt_LEVEL_LIMIT MAX_SIZE_values MAX_SIZE_L_values)

text \<open>
  Claim C4. For a file size \<open>n\<close> with \<open>0 \<le> n \<le> MAX_SIZE[3]\<close>, \<open>whichLv\<close> (the level
  that \<open>Allocate\<close> uses) returns the smallest level \<open>L\<close> in \<open>{0,1,2,3}\<close> with
  \<open>n \<le> MAX_SIZE[L]\<close>; so the size \<open>MAX_SIZE[L]\<close> itself gets level \<open>L\<close> and the size
  \<open>MAX_SIZE[L] + 1\<close> gets level \<open>L + 1\<close>. A size above \<open>MAX_SIZE[3]\<close> is rejected:
  \<open>whichLv\<close> stops on its assertion, and \<open>Allocate\<close> never reports success for it.
\<close>

theorem whichLv_smallest_level:
  "(0 \<le> n \<and> n \<le> MAX_SIZE 3 \<longrightarrow>
      (\<exists>L. whichLv n = Ret L \<and> L < LEVEL_LIMIT \<and> n \<le> MAX_SIZE L \<and> (\<forall>k<L. MAX_SIZE k < n)))
   \<and> (\<forall>L<LEVEL_LIMIT. whichLv (MAX_SIZE L) = Ret L)
   \<and> (\<forall>L<3. whichLv (MAX_SIZE L + 1) = Ret (L + 1))
   \<and> (MAX_SIZE 3 < n \<longrightarrow>
        whichLv n = Abort
        \<and> (\<forall>this freeMap.
             Allocate this freeMap n = Abort
             \<or> (\<exists>this' freeMap'. Allocate this freeMap n = Ret (False, this', freeMap'))))"
proof (intro conjI impI allI)
  assume "0 \<le> n \<and> n \<le> MAX_SIZE 3"
  then have n: "n \<le> 103680000" by (simp add: MAX_SIZE_values MAX_SIZE_L_values)
  have lt: "k < Suc 0 \<longleftrightarrow> k = 0" "k < 2 \<longleftrightarrow> k = 0 \<or> k = 1"
    "k < 3 \<longleftrightarrow> k = 0 \<or> k = 1 \<or> k = 2" for k :: nat
    by auto
  show "\<exists>L. whichLv n = Ret L \<and> L < LEVEL_LIMIT \<and> n \<le> MAX_SIZE L \<and> (\<forall>k<L. MAX_SIZE k < n)"
    using n by (auto simp: whichLv_cases LEVEL_LIMIT_def MAX_SIZE_values MAX_SIZE_L_values lt)
next
  fix L assume "L < LEVEL_LIMIT"
  then have "L = 0 \<or> L = 1 \<or> L = 2 \<or> L = 3" by (auto simp: LEVEL_LIMIT_def)
  then show "whichLv (MAX_SIZE L) = Ret L"
    by (auto simp: whichLv_cases MAX_SIZE_values MAX_SIZE_L_values)
next
  fix L :: nat assume "L < 3"
  then have "L = 0 \<or> L = 1 \<or> L = 2" by auto
  then show "whichLv (MAX_SIZE L + 1) = Ret (L + 1)"
    by (auto simp: whichLv_cases MAX_SIZE_values MAX_SIZE_L_values)
next
  assume "MAX_SIZE 3 < n"
  then show "whichLv n = Abort" by (simp add: whichLv_cases MAX_SIZE_values MAX_SIZE_L_values)
next
  fix this freeMap
  assume "MAX_SIZE 3 < n"
  then have ab: "whichLv n = Abort" by (simp add: whichLv_cases MAX_SIZE_values MAX_SIZE_L_values)
  obtain nb nds ds m cs where hdr: "this = FileHeader nb nds ds m cs" by (cases this)
  show "Allocate this freeMap n = Abort
        \<or> (\<exists>this' freeMap'. Allocate this freeMap n = Ret (False, this', freeMap'))"
    by (simp add: Allocate_def hdr ab)
qed

theorem whichLv_smallest_level_witness:
  "(0::int) \<le> 4000 \<and> 4000 \<le> MAX_SIZE 3 \<and> whichLv 4000 = Ret 1
   \<and> whichLv 3840 = Ret 0 \<and> whichLv 3841 = Ret 1
   \<and> MAX_SIZE 3 < 103680001 \<and> whichLv 103680001 = Abort"
proof -
  have a: "(0::int) \<le> 4000 \<and> 4000 \<le> MAX_SIZE 3" by (simp add: MAX_SIZE_values MAX_SIZE_L_values)
  have b: "MAX_SIZE 3 < 103680001" by (simp add: MAX_SIZE_values MAX_SIZE_L_values)
  from whichLv_smallest_level [of 4000] a
  obtain L where L: "whichLv 4000 = Ret L" "4000 \<le> MAX_SIZE L" "\<forall>k<L. MAX_SIZE k < 4000"
    by blast
  have "L = 1"
  proof -
    have "L \<noteq> 0" using L(2) by (cases "L = 0") (simp_all add: MAX_SIZE_values MAX_SIZE_L_values)
    moreover have "\<not> 1 < L"
    proof
      assume "1 < L"
      then have "MAX_SIZE 1 < 4000" using L(3) by blast
      then show False by (simp add: MAX_SIZE_values MAX_SIZE_L_values)
    qed
    ultimately show ?thesis by simp
  qed
  moreover from whichLv_smallest_level [of 103680001] b
  have "whichLv 103680001 = Abort" by blast
  moreover have "whichLv 3840 = Ret 0" "whichLv 3841 = Ret 1"
  proof -
    from whichLv_smallest_level [of 0]
    have "\<forall>L<LEVEL_LIMIT. whichLv (MAX_SIZE L) = Ret L"
      and "\<forall>L<3. whichLv (MAX_SIZE L + 1) = Ret (L + 1)"
      by blast+
    then have "0 < LEVEL_LIMIT \<longrightarrow> whichLv (MAX_SIZE 0) = Ret 0"
      and "(0::nat) < 3 \<longrightarrow> whichLv (MAX_SIZE 0 + 1) = Ret (0 + 1)"
      by blast+
    then show "whichLv 3840 = Ret 0" "whichLv 3841 = Ret 1"
      by (simp_all add: MAX_SIZE_L_values LEVEL_LIMIT_def)
  qed
  ultimately show ?thesis using a b L(1) by simp
qed

section \<open>Allocation splits a file into chunks\<close>

declare Allocate_direct.simps [simp del] Allocate3.simps [simp del] Allocate_loop.simps [simp del]

lemma split_chunks_step:
  assumes "0 < fs" "0 < M"
  shows "split_chunks fs M = min fs M # split_chunks (fs - min fs M) M"
proof (cases "fs < M")
  case True
  then show ?thesis using assms by (simp add: split_chunks_def)
next
  case False
  then have ge: "M \<le> fs" by simp
  have "((fs - M) + M) div M = (fs - M) div M + 1"
    using assms by (subst div_add_self2) auto
  then have d: "fs div M = (fs - M) div M + 1" by simp
  have m: "fs mod M = (fs - M) mod M" by simp
  have nn: "0 \<le> (fs - M) div M" using assms ge by (simp add: pos_imp_zdiv_nonneg_iff)
  have "nat (fs div M) = Suc (nat ((fs - M) div M))" using d nn by simp
  then show ?thesis using ge m by (simp add: split_chunks_def min_def)
qed

lemma Allocate_direct_fields:
  "Allocate_direct h fm i = Ret (h', fm') \<Longrightarrow>
     numBytes h' = numBytes h \<and> numDataSectors h' = numDataSectors h \<and> children h' = children h
     \<and> length (dataSectors h') = length (dataSectors h)"
proof (induction h fm i rule: Allocate_direct.induct)
  case (1 nb nds ds m cs freeMap i)
  show ?case
  proof (cases "i < nds")
    case False
    with 1(2) show ?thesis by (simp add: Allocate_direct.simps)
  next
    case True
    obtain s fm1 where fs: "FindAndSet freeMap = (s, fm1)" by (cases "FindAndSet freeMap")
    show ?thesis
    proof (cases "0 \<le> s")
      case False
      with 1(2) True fs show ?thesis by (simp add: Allocate_direct.simps)
    next
      case s: True
      from 1(2) True fs s
      have "Allocate_direct (FileHeader nb nds (ds[nat i := s]) (m @ [s]) cs) fm1 (i + 1) = Ret (h', fm')"
        by (simp add: Allocate_direct.simps)
      from 1(1)[OF True fs[symmetric] s this] show ?thesis by simp
    qed
  qed
qed

lemma MAX_SIZE_pos: "0 < MAX_SIZE k"
  by (cases k rule: MAX_SIZE.cases) (simp_all add: MAX_SIZE_L_values)

lemma Allocate_loop_fields:
  "Allocate_loop h fm fs lv i = Ret (h', fm') \<Longrightarrow>
     numBytes h' = numBytes h \<and> numDataSectors h' = numDataSectors h
     \<and> length (dataSectors h') = length (dataSectors h)"
proof (induction "nat fs" arbitrary: h fm fs i rule: less_induct)
  case less
  obtain nb nds ds m cs where h: "h = FileHeader nb nds ds m cs" by (cases h)
  show ?case
  proof (cases "0 < fs")
    case False
    with less(2) show ?thesis by (simp add: h Allocate_loop.simps)
  next
    case True
    define sub where "sub = min fs (MAX_SIZE (lv - 1))"
    have sub: "0 < sub" using True MAX_SIZE_pos [of "lv - 1"] by (simp add: sub_def)
    obtain s fm1 where fs: "FindAndSet fm = (s, fm1)" by (cases "FindAndSet fm")
    from less(2) True fs have s: "0 \<le> s"
      by (simp add: h Allocate_loop.simps split: if_splits)
    from less(2) True fs s obtain ok child fm2 m' where
      c: "Allocate3 new_FileHeader fm1 sub (Some m) = Ret (ok, child, fm2, m')"
      and r: "Allocate_loop (FileHeader nb nds (ds[i := s]) m' (set_child cs i child)) fm2
                (fs - sub) lv (i + 1) = Ret (h', fm')"
      by (auto simp: h Allocate_loop.simps sub_def split: result.splits)
    have "nat (fs - sub) < nat fs" using sub True by simp
    from less(1)[OF this r] show ?thesis by (simp add: h)
  qed
qed

lemma Allocate3_fields:
  assumes "Allocate3 h fm n p = Ret (ok, h', fm', ps)"
  shows "numBytes h' = n \<and> numDataSectors h' = divRoundUp n SectorSize"
proof -
  obtain nb nds ds m cs where h: "h = FileHeader nb nds ds m cs" by (cases h)
  show ?thesis
  proof (cases "NumClear fm < divRoundUp n SectorSize")
    case True
    with assms show ?thesis by (auto simp: h Allocate3.simps)
  next
    case False
    with assms obtain lv where lv: "whichLv n = Ret lv"
      by (auto simp: h Allocate3.simps split: result.splits)
    show ?thesis
    proof (cases "lv = 0")
      case True
      with assms False lv
      have "Allocate_direct (FileHeader n (divRoundUp n SectorSize) ds m cs) fm 0 = Ret (h', fm')"
        by (auto simp: h Allocate3.simps split: result.splits)
      from Allocate_direct_fields[OF this] show ?thesis by simp
    next
      case nz: False
      with assms False lv
      have "Allocate_loop (FileHeader n (divRoundUp n SectorSize) ds m cs) fm n lv 0 = Ret (h', fm')"
        by (auto simp: h Allocate3.simps split: result.splits)
      from Allocate_loop_fields[OF this] show ?thesis by simp
    qed
  qed
qed

lemma Allocate_loop_children:
  assumes "Allocate_loop h fm fs lv i = Ret (h', fm')" "i = length (children h)" "0 \<le> fs"
  shows "map (\<lambda>c. (numBytes c, numDataSectors c)) (children h') =
         map (\<lambda>c. (numBytes c, numDataSectors c)) (children h) @
         map (\<lambda>b. (b, divRoundUp b SectorSize)) (split_chunks fs (MAX_SIZE (lv - 1)))"
  using assms
proof (induction "nat fs" arbitrary: h fm fs i rule: less_induct)
  case less
  obtain nb nds ds m cs where h: "h = FileHeader nb nds ds m cs" by (cases h)
  show ?case
  proof (cases "0 < fs")
    case False
    with less(2,4) show ?thesis by (simp add: h Allocate_loop.simps split_chunks_def)
  next
    case True
    define sub where "sub = min fs (MAX_SIZE (lv - 1))"
    have sub: "0 < sub" using True MAX_SIZE_pos [of "lv - 1"] by (simp add: sub_def)
    obtain s fm1 where fs: "FindAndSet fm = (s, fm1)" by (cases "FindAndSet fm")
    from less(2) True fs have s: "0 \<le> s"
      by (simp add: h Allocate_loop.simps split: if_splits)
    from less(2) True fs s obtain ok child fm2 m' where
      c: "Allocate3 new_FileHeader fm1 sub (Some m) = Ret (ok, child, fm2, m')"
      and r: "Allocate_loop (FileHeader nb nds (ds[i := s]) m' (set_child cs i child)) fm2
                (fs - sub) lv (i + 1) = Ret (h', fm')"
      by (auto simp: h Allocate_loop.simps sub_def split: result.splits)
    have lt: "nat (fs - sub) < nat fs" using sub True by simp
    have sc: "set_child cs i child = cs @ [child]" using less(3) by (simp add: set_child_def h)
    have i': "i + 1 = length (children (FileHeader nb nds (ds[i := s]) m' (set_child cs i child)))"
      using less(3) sc by (simp add: h)
    have nn: "0 \<le> fs - sub" by (simp add: sub_def)
    from less(1)[OF lt r i' nn] Allocate3_fields[OF c]
      split_chunks_step[OF True MAX_SIZE_pos, of "lv - 1"]
    show ?thesis by (simp add: h sc sub_def)
  qed
qed

lemma split_chunks_length_step:
  "0 < fs \<Longrightarrow> length (split_chunks fs (MAX_SIZE k)) =
     Suc (length (split_chunks (fs - min fs (MAX_SIZE k)) (MAX_SIZE k)))"
  using split_chunks_step [OF _ MAX_SIZE_pos, of fs k] by simp

lemma Allocate_loop_sectors:
  assumes "Allocate_loop h fm fs lv i = Ret (h', fm')" "0 \<le> fs"
    "i + length (split_chunks fs (MAX_SIZE (lv - 1))) \<le> length (dataSectors h)"
    "\<forall>j<i. dataSectors h ! j \<noteq> INVALID_SECTOR"
    "\<forall>j. i \<le> j \<and> j < length (dataSectors h) \<longrightarrow> dataSectors h ! j = INVALID_SECTOR"
  shows "(\<forall>j < i + length (split_chunks fs (MAX_SIZE (lv - 1))).
            dataSectors h' ! j \<noteq> INVALID_SECTOR)
       \<and> (\<forall>j. i + length (split_chunks fs (MAX_SIZE (lv - 1))) \<le> j \<and> j < length (dataSectors h)
            \<longrightarrow> dataSectors h' ! j = INVALID_SECTOR)"
  using assms
proof (induction "nat fs" arbitrary: h fm fs i rule: less_induct)
  case less
  obtain nb nds ds m cs where h: "h = FileHeader nb nds ds m cs" by (cases h)
  show ?case
  proof (cases "0 < fs")
    case False
    with less(2-) show ?thesis by (simp add: h Allocate_loop.simps split_chunks_def)
  next
    case True
    define sub where "sub = min fs (MAX_SIZE (lv - 1))"
    have sub: "0 < sub" using True MAX_SIZE_pos [of "lv - 1"] by (simp add: sub_def)
    obtain s fm1 where fs: "FindAndSet fm = (s, fm1)" by (cases "FindAndSet fm")
    from less(2) True fs have s: "0 \<le> s"
      by (simp add: h Allocate_loop.simps split: if_splits)
    from less(2) True fs s obtain ok child fm2 m' where
      r: "Allocate_loop (FileHeader nb nds (ds[i := s]) m' (set_child cs i child)) fm2
                (fs - sub) lv (i + 1) = Ret (h', fm')"
      by (auto simp: h Allocate_loop.simps sub_def split: result.splits)
    have lt: "nat (fs - sub) < nat fs" using sub True by simp
    have nn: "0 \<le> fs - sub" by (simp add: sub_def)
    have len: "length (split_chunks fs (MAX_SIZE (lv - 1))) =
        Suc (length (split_chunks (fs - sub) (MAX_SIZE (lv - 1))))"
      using split_chunks_length_step [OF True] by (simp add: sub_def)
    have il: "i < length ds" using less(4) len by (simp add: h)
    have a: "i + 1 + length (split_chunks (fs - sub) (MAX_SIZE (lv - 1)))
          \<le> length (dataSectors (FileHeader nb nds (ds[i := s]) m' (set_child cs i child)))"
      using less(4) len by (simp add: h)
    have b: "\<forall>j<i + 1. dataSectors (FileHeader nb nds (ds[i := s]) m' (set_child cs i child)) ! j
          \<noteq> INVALID_SECTOR"
      using less(5) s il by (auto simp: h nth_list_update INVALID_SECTOR_def less_Suc_eq)
    have c: "\<forall>j. i + 1 \<le> j \<and>
          j < length (dataSectors (FileHeader nb nds (ds[i := s]) m' (set_child cs i child))) \<longrightarrow>
          dataSectors (FileHeader nb nds (ds[i := s]) m' (set_child cs i child)) ! j = INVALID_SECTOR"
      using less(6) by (auto simp: h nth_list_update)
    from less(1)[OF lt r nn a b c] len show ?thesis by (simp add: h)
  qed
qed

lemma count_prefix:
  assumes "k \<le> length ds" "\<forall>j<k. P (ds ! j)" "\<forall>j. k \<le> j \<and> j < length ds \<longrightarrow> \<not> P (ds ! j)"
  shows "length (filter P ds) = k"
proof -
  have t: "filter P (take k ds) = take k ds"
    using assms by (auto simp: filter_id_conv in_set_conv_nth)
  have d: "filter P (drop k ds) = []"
    using assms by (auto simp: filter_empty_conv in_set_conv_nth)
  have "filter P ds = filter P (take k ds @ drop k ds)" by simp
  also have "\<dots> = take k ds" using t d by (simp only: filter_append) simp
  finally show ?thesis using assms(1) by simp
qed

lemma split_chunks_length_le:
  assumes "0 \<le> n" "0 < M" "n \<le> 30 * M"
  shows "length (split_chunks n M) \<le> 30"
proof -
  have "n div M \<le> (30 * M) div M" using assms by (intro zdiv_mono1)
  then have d: "n div M \<le> 30" using assms by simp
  show ?thesis
  proof (cases "n mod M = 0")
    case True
    with d show ?thesis by (simp add: split_chunks_def)
  next
    case False
    have "n div M \<noteq> 30"
    proof
      assume e: "n div M = 30"
      have "n = M * (n div M) + n mod M" by simp
      moreover have "0 \<le> n mod M" using assms by simp
      ultimately have "n = 30 * M" using e assms(3) False
        by (metis add.right_neutral add_le_cancel_left mult.commute order_antisym)
      then show False using False by simp
    qed
    with d have "n div M \<le> 29" by simp
    then show ?thesis using False by (simp add: split_chunks_def)
  qed
qed

lemma MAX_SIZE_step: "0 < L \<Longrightarrow> L < 4 \<Longrightarrow> MAX_SIZE L = 30 * MAX_SIZE (L - 1)"
proof -
  assume "0 < L" "L < 4"
  then have "L = 1 \<or> L = 2 \<or> L = 3" by auto
  then show ?thesis by (auto simp: MAX_SIZE_values MAX_SIZE_L_values)
qed

text \<open>
  Claim C6. For a file size \<open>n\<close> with \<open>MAX_SIZE[0] < n \<le> MAX_SIZE[3]\<close> and
  \<open>L = whichLv n\<close>, a successful \<open>Allocate\<close> on a fresh header records \<open>numBytes = n\<close>
  and creates one child header per chunk of \<open>split_chunks n MAX_SIZE[L-1]\<close>, in that order:
  the child sizes are the chunks (each positive and at most \<open>MAX_SIZE[L-1]\<close>, only the last
  one possibly smaller), each child has \<open>numDataSectors = ceil(numBytes / SectorSize)\<close>,
  and the number of non-sentinel entries of \<open>dataSectors\<close> is the number of children.
  The witness is the file of 4000 bytes: level 1, two children of 3840 and 160 bytes, the
  second with 2 data sectors; the header that \<open>create /big 4000\<close> leaves on the disk reads
  back as that tree.
\<close>

theorem Allocate_splits_into_chunks:
  assumes "MAX_SIZE 0 < n" "n \<le> MAX_SIZE 3" "whichLv n = Ret L"
    and "Allocate new_FileHeader freeMap n = Ret (True, h, freeMap')"
  shows "0 < L \<and> numBytes h = n
    \<and> map numBytes (children h) = split_chunks n (MAX_SIZE (L - 1))
    \<and> map numDataSectors (children h) =
        map (\<lambda>b. divRoundUp b SectorSize) (split_chunks n (MAX_SIZE (L - 1)))
    \<and> length (filter (\<lambda>s. s \<noteq> INVALID_SECTOR) (dataSectors h)) = length (children h)
    \<and> (\<forall>b \<in> set (split_chunks n (MAX_SIZE (L - 1))). 0 < b \<and> b \<le> MAX_SIZE (L - 1))"
proof -
  have n0: "3840 < n" using assms(1) by (simp add: MAX_SIZE_L_values)
  have n3: "n \<le> 103680000" using assms(2) by (simp add: MAX_SIZE_values MAX_SIZE_L_values)
  have L: "0 < L" "L < 4" using assms(3) n0 n3 by (auto simp: whichLv_cases split: if_splits)
  have nL: "n \<le> MAX_SIZE L"
    using assms(3) n0 n3
    by (auto simp: whichLv_cases MAX_SIZE_values MAX_SIZE_L_values split: if_splits)
  define M where "M = MAX_SIZE (L - 1)"
  have M: "0 < M" by (simp add: M_def MAX_SIZE_pos)
  have nM: "n \<le> 30 * M" using nL MAX_SIZE_step[OF L] by (simp add: M_def)
  define h0 where "h0 = FileHeader n (divRoundUp n SectorSize)
      (replicate (nat NUM_DIRECT) INVALID_SECTOR) [] []"
  from assms(4) obtain ps where a3: "Allocate3 new_FileHeader freeMap n None = Ret (True, h, freeMap', ps)"
    by (auto simp: Allocate_def split: result.splits)
  then have lp: "Allocate_loop h0 freeMap n L 0 = Ret (h, freeMap')"
    using assms(3) L(1)
    by (auto simp: Allocate3.simps new_FileHeader_def h0_def split: if_splits result.splits)
  have nb: "numBytes h = n" using Allocate3_fields[OF a3] by simp
  have n_nonneg: "0 \<le> n" using n0 by simp
  have ch: "map (\<lambda>c. (numBytes c, numDataSectors c)) (children h) =
      map (\<lambda>b. (b, divRoundUp b SectorSize)) (split_chunks n M)"
    using Allocate_loop_children[OF lp _ n_nonneg] by (simp add: h0_def M_def)
  have ch1: "map numBytes (children h) = split_chunks n M"
  proof -
    have "map numBytes (children h) = map fst (map (\<lambda>c. (numBytes c, numDataSectors c)) (children h))"
      by (simp add: comp_def)
    also have "\<dots> = split_chunks n M" by (simp only: ch) (simp add: comp_def)
    finally show ?thesis .
  qed
  have ch2: "map numDataSectors (children h) = map (\<lambda>b. divRoundUp b SectorSize) (split_chunks n M)"
  proof -
    have "map numDataSectors (children h) =
        map snd (map (\<lambda>c. (numBytes c, numDataSectors c)) (children h))"
      by (simp add: comp_def)
    also have "\<dots> = map (\<lambda>b. divRoundUp b SectorSize) (split_chunks n M)"
      by (simp only: ch) (simp add: comp_def)
    finally show ?thesis .
  qed
  have len: "length (split_chunks n M) \<le> 30" by (rule split_chunks_length_le[OF n_nonneg M nM])
  have lench: "length (children h) = length (split_chunks n M)"
    using arg_cong[OF ch1, of length] by simp
  have sec: "(\<forall>j < 0 + length (split_chunks n (MAX_SIZE (L - 1))). dataSectors h ! j \<noteq> INVALID_SECTOR)
       \<and> (\<forall>j. 0 + length (split_chunks n (MAX_SIZE (L - 1))) \<le> j \<and> j < length (dataSectors h0)
            \<longrightarrow> dataSectors h ! j = INVALID_SECTOR)"
    by (rule Allocate_loop_sectors[OF lp n_nonneg])
       (use len in \<open>simp_all add: h0_def M_def NUM_DIRECT_def SectorSize_def\<close>)
  have dl: "length (dataSectors h) = 30"
    using Allocate_loop_fields[OF lp] by (simp add: h0_def NUM_DIRECT_def SectorSize_def)
  have cnt: "length (filter (\<lambda>s. s \<noteq> INVALID_SECTOR) (dataSectors h)) = length (split_chunks n M)"
    by (rule count_prefix) (use sec len dl in \<open>auto simp: M_def h0_def NUM_DIRECT_def SectorSize_def\<close>)
  define r where "r = n mod M"
  have r: "0 \<le> r" "r < M" using M by (simp_all add: r_def)
  have "split_chunks n M = replicate (nat (n div M)) M @ (if r = 0 then [] else [r])"
    by (simp add: split_chunks_def r_def)
  then have bounds: "\<forall>b \<in> set (split_chunks n M). 0 < b \<and> b \<le> M"
    using M r by (auto split: if_splits)
  show ?thesis using L(1) nb ch1 ch2 cnt lench bounds by (simp add: M_def)
qed

theorem Allocate_splits_into_chunks_witness:
  "MAX_SIZE 0 < 4000 \<and> 4000 \<le> MAX_SIZE 3 \<and> whichLv 4000 = Ret 1
   \<and> (\<exists>h freeMap'. Allocate new_FileHeader (replicate 40 False) 4000 = Ret (True, h, freeMap')
        \<and> numBytes h = 4000
        \<and> map numBytes (children h) = [3840, 160]
        \<and> map numDataSectors (children h) = [30, 2]
        \<and> length (filter (\<lambda>s. s \<noteq> INVALID_SECTOR) (dataSectors h)) = 2)
   \<and> fst (Create 5 (formatted_fs 64) (formatted_disk 64) ''/big'' 4000) = Ret True
   \<and> FetchFrom 5 disk_big new_FileHeader 13
       = Ret (FileHeader 4000 32 ([14, 45] @ replicate 28 (- 1)) (map int ([15..<45] @ [46, 47]))
           [FileHeader 3840 30 (map int [15..<45]) (map int [15..<45]) [],
            FileHeader 160 2 ([46, 47] @ replicate 28 (- 1)) [46, 47] []])"
proof -
  have big: "fst (Create 5 (formatted_fs 64) (formatted_disk 64) ''/big'' 4000) = Ret True
   \<and> FetchFrom 5 disk_big new_FileHeader 13
       = Ret (FileHeader 4000 32 ([14, 45] @ replicate 28 (- 1)) (map int ([15..<45] @ [46, 47]))
           [FileHeader 3840 30 (map int [15..<45]) (map int [15..<45]) [],
            FileHeader 160 2 ([46, 47] @ replicate 28 (- 1)) [46, 47] []])"
    by code_simp
  define h where "h = FileHeader 4000 32 ([0, 31] @ replicate 28 (- 1))
      (map int ([1..<31] @ [32, 33]))
      [FileHeader 3840 30 (map int [1..<31]) (map int [1..<31]) [],
       FileHeader 160 2 ([32, 33] @ replicate 28 (- 1)) [32, 33] []]"
  have a: "MAX_SIZE 0 < 4000" and b: "4000 \<le> MAX_SIZE 3" and c: "whichLv 4000 = Ret 1"
    by (simp_all add: MAX_SIZE_values MAX_SIZE_L_values whichLv_cases)
  have d: "Allocate new_FileHeader (replicate 40 False) 4000
      = Ret (True, h, replicate 34 True @ replicate 6 False)"
    unfolding h_def by code_simp
  have s: "split_chunks 4000 (MAX_SIZE (1 - 1)) = [3840, 160]"
    by (simp add: split_chunks_def MAX_SIZE_L_values)
  have s2: "map (\<lambda>b. divRoundUp b SectorSize) [3840, 160] = [30, 2]"
    by (simp add: divRoundUp_def SectorSize_def)
  note t = Allocate_splits_into_chunks [OF a b c d, unfolded s s2]
  from t have t1: "numBytes h = 4000" by (rule conjunct1 [OF conjunct2])
  from t have t2: "map numBytes (children h) = [3840, 160]"
    by (rule conjunct1 [OF conjunct2 [OF conjunct2]])
  from t have t3: "map numDataSectors (children h) = [30, 2]"
    by (rule conjunct1 [OF conjunct2 [OF conjunct2 [OF conjunct2]]])
  from t have t4: "length (filter (\<lambda>s. s \<noteq> INVALID_SECTOR) (dataSectors h)) = length (children h)"
    by (rule conjunct1 [OF conjunct2 [OF conjunct2 [OF conjunct2 [OF conjunct2]]]])
  have "length (map numBytes (children h)) = 2" by (simp only: t2) simp
  then have t5: "length (children h) = 2" by simp
  have "Allocate new_FileHeader (replicate 40 False) 4000 = Ret (True, h, replicate 34 True @ replicate 6 False)
        \<and> numBytes h = 4000
        \<and> map numBytes (children h) = [3840, 160]
        \<and> map numDataSectors (children h) = [30, 2]
        \<and> length (filter (\<lambda>s. s \<noteq> INVALID_SECTOR) (dataSectors h)) = 2"
    using d t1 t2 t3 t4 t5 by (simp only:)
  then have "\<exists>h freeMap'. Allocate new_FileHeader (replicate 40 False) 4000 = Ret (True, h, freeMap')
        \<and> numBytes h = 4000
        \<and> map numBytes (children h) = [3840, 160]
        \<and> map numDataSectors (children h) = [30, 2]
        \<and> length (filter (\<lambda>s. s \<noteq> INVALID_SECTOR) (dataSectors h)) = 2"
    by (intro exI [of _ h] exI [of _ "replicate 34 True @ replicate 6 False"])
  with a b c big show ?thesis by (intro conjI) (simp_all only:)
qed

section \<open>Path resolution\<close>

declare find_loop.simps [simp del] FetchFrom3.simps [simp del] FetchFrom_loop.simps [simp del]
  WriteBack.simps [simp del] WriteBack_loop.simps [simp del]
  Deallocate.simps [simp del] Deallocate_loop.simps [simp del]
  RemoveAll.simps [simp del] RemoveAll_loop.simps [simp del]

text \<open>Formatting a blank disk of 64, 16 or 46 sectors returns the file system \<open>formatted_fs\<close>.\<close>

lemma format_returns:
  "fst (new_FileSystem 5 (blank_disk 64) True) = Ret (formatted_fs 64)"
  "fst (new_FileSystem 5 (blank_disk 16) True) = Ret (formatted_fs 16)"
  "fst (new_FileSystem 5 (blank_disk 46) True) = Ret (formatted_fs 46)"
  by code_simp+

lemma splitPath_loop_count:
  "splitPath_loop str result token i = (r, t, j) \<Longrightarrow> j = i + length str"
proof (induction str arbitrary: result token i)
  case Nil
  then show ?case by simp
next
  case (Cons c str)
  show ?case
  proof (cases "c = CHR ''/''")
    case True
    with Cons.prems have "splitPath_loop str (result @ [token]) [] (i + 1) = (r, t, j)" by simp
    from Cons.IH[OF this] show ?thesis by simp
  next
    case False
    with Cons.prems have "splitPath_loop str result (token @ [c]) (i + 1) = (r, t, j)" by simp
    from Cons.IH[OF this] show ?thesis by simp
  qed
qed

lemma splitPath_exceed: "snd (splitPath p) \<longleftrightarrow> PATH_NAME_MAX_LEN \<le> length p"
proof -
  obtain r t j where s: "splitPath_loop p [] [] 0 = (r, t, j)" by (cases "splitPath_loop p [] [] 0")
  from splitPath_loop_count[OF s] show ?thesis by (simp add: splitPath_def s)
qed

lemma find_too_long:
  assumes "PATH_NAME_MAX_LEN \<le> length p"
  shows "FileFinder_find fuel d this p isDir' root = Ret (this\<lparr>filename := last (fst (splitPath p))\<rparr>)"
proof -
  obtain path ex where s: "splitPath p = (path, ex)" by (cases "splitPath p")
  with splitPath_exceed[of p] assms have "ex" by simp
  then show ?thesis by (simp add: FileFinder_find_def s)
qed

lemma Remove_single_not_found:
  assumes "FileFinder_find fuel d new_FileFinder p FILE (directoryFile fs) = Ret f" "\<not> exist f"
  shows "Remove_single fuel fs d p = (Ret False, d)"
  using assms by (simp add: Remove_single_def)

lemma Remove_too_long:
  assumes "PATH_NAME_MAX_LEN \<le> length p"
  shows "Remove fuel fs d p recursive = (Ret False, d)"
  using find_too_long[OF assms]
  by (simp add: Remove_def recursivelyRemove_def Remove_single_def new_FileFinder_def)

lemma Create_too_long:
  assumes "PATH_NAME_MAX_LEN \<le> length p"
  shows "createFileOrDir fuel fs d p isDir' n = (Abort, d)"
  using find_too_long[OF assms]
  by (simp add: createFileOrDir_def new_FileFinder_def)

lemma Open_too_long:
  assumes "PATH_NAME_MAX_LEN \<le> length p"
  shows "Open fuel fs d p = Abort"
  using find_too_long[OF assms]
  by (simp add: Open_def new_FileFinder_def)

text \<open>
  Claim C8, as amended. A path of at least \<open>PATH_NAME_MAX_LEN = 256\<close> bytes is not
  resolved: \<open>find\<close> returns at once, for any disk, with \<open>exist = false\<close> and both
  sector fields still \<open>INVALID_SECTOR\<close> (only \<open>filename\<close> is set), and it reads and
  writes nothing. \<open>Remove\<close> then returns false on an unchanged disk. \<open>Create\<close>,
  \<open>Mkdir\<close> and \<open>Open\<close> do not take that "not found" silently: each stops on its own
  assertion (\<open>Create\<close> and \<open>Mkdir\<close> before any write). A path of exactly 255 bytes
  does not raise the flag: \<open>find\<close> goes on to walk its components.
\<close>

theorem path_length_limit:
  "(PATH_NAME_MAX_LEN \<le> length p \<longrightarrow>
      FileFinder_find fuel d new_FileFinder p isDir' root =
        Ret (new_FileFinder\<lparr>filename := last (fst (splitPath p))\<rparr>)
      \<and> Remove fuel fs d p recursive = (Ret False, d)
      \<and> Create fuel fs d p n = (Abort, d)
      \<and> Mkdir fuel fs d p = (Abort, d)
      \<and> Open fuel fs d p = Abort)
   \<and> (length p = PATH_NAME_MAX_LEN - 1 \<longrightarrow>
      \<not> snd (splitPath p)
      \<and> FileFinder_find fuel d new_FileFinder p isDir' root =
          find_loop fuel d (fst (splitPath p)) isDir' 1 root
            (new_FileFinder\<lparr>filename := last (fst (splitPath p))\<rparr>))"
proof (intro conjI impI)
  assume a: "PATH_NAME_MAX_LEN \<le> length p"
  show "FileFinder_find fuel d new_FileFinder p isDir' root =
        Ret (new_FileFinder\<lparr>filename := last (fst (splitPath p))\<rparr>)"
    by (rule find_too_long[OF a])
  show "Remove fuel fs d p recursive = (Ret False, d)"
    by (rule Remove_too_long[OF a])
  show "Create fuel fs d p n = (Abort, d)"
    using Create_too_long[OF a] by (simp add: Create_def)
  show "Mkdir fuel fs d p = (Abort, d)"
    using Create_too_long[OF a] by (simp add: Mkdir_def)
  show "Open fuel fs d p = Abort"
    by (rule Open_too_long[OF a])
next
  assume a: "length p = PATH_NAME_MAX_LEN - 1"
  then show n: "\<not> snd (splitPath p)" by (simp add: splitPath_exceed PATH_NAME_MAX_LEN_def)
  have "p \<noteq> ''/''" using a by (auto simp: PATH_NAME_MAX_LEN_def)
  moreover obtain path ex where s: "splitPath p = (path, ex)" by (cases "splitPath p")
  ultimately show "FileFinder_find fuel d new_FileFinder p isDir' root =
          find_loop fuel d (fst (splitPath p)) isDir' 1 root
            (new_FileFinder\<lparr>filename := last (fst (splitPath p))\<rparr>)"
    using n by (simp add: FileFinder_find_def)
qed

theorem path_length_limit_witness:
  "PATH_NAME_MAX_LEN \<le> length (CHR ''/'' # replicate 255 (CHR ''a''))
   \<and> FileFinder_find 5 (formatted_disk 64) new_FileFinder (CHR ''/'' # replicate 255 (CHR ''a''))
         FILE (directoryFile (formatted_fs 64))
       = Ret (new_FileFinder\<lparr>filename := replicate 255 (CHR ''a'')\<rparr>)
   \<and> Remove 5 (formatted_fs 64) (formatted_disk 64) (CHR ''/'' # replicate 255 (CHR ''a'')) False
       = (Ret False, formatted_disk 64)
   \<and> Create 5 (formatted_fs 64) (formatted_disk 64) (CHR ''/'' # replicate 255 (CHR ''a'')) 1
       = (Abort, formatted_disk 64)
   \<and> Mkdir 5 (formatted_fs 64) (formatted_disk 64) (CHR ''/'' # replicate 255 (CHR ''a''))
       = (Abort, formatted_disk 64)
   \<and> Open 5 (formatted_fs 64) (formatted_disk 64) (CHR ''/'' # replicate 255 (CHR ''a'')) = Abort
   \<and> length (CHR ''/'' # replicate 254 (CHR ''a'')) = PATH_NAME_MAX_LEN - 1
   \<and> \<not> snd (splitPath (CHR ''/'' # replicate 254 (CHR ''a'')))
   \<and> fst (Create 5 (formatted_fs 64) (formatted_disk 64) (CHR ''/'' # replicate 254 (CHR ''a'')) 1)
       = Ret True"
proof -
  have a: "PATH_NAME_MAX_LEN \<le> length (CHR ''/'' # replicate 255 (CHR ''a''))"
    by (simp add: PATH_NAME_MAX_LEN_def)
  have b: "length (CHR ''/'' # replicate 254 (CHR ''a'')) = PATH_NAME_MAX_LEN - 1"
    by (simp add: PATH_NAME_MAX_LEN_def)
  have l: "last (fst (splitPath (CHR ''/'' # replicate 255 (CHR ''a'')))) = replicate 255 (CHR ''a'')"
    by code_simp
  have c: "fst (Create 5 (formatted_fs 64) (formatted_disk 64) (CHR ''/'' # replicate 254 (CHR ''a'')) 1)
       = Ret True"
    by code_simp
  from path_length_limit [of "CHR ''/'' # replicate 255 (CHR ''a'')" 5 "formatted_disk 64" FILE
      "directoryFile (formatted_fs 64)" "formatted_fs 64" False 1] a
  have "FileFinder_find 5 (formatted_disk 64) new_FileFinder (CHR ''/'' # replicate 255 (CHR ''a''))
         FILE (directoryFile (formatted_fs 64))
       = Ret (new_FileFinder\<lparr>filename := replicate 255 (CHR ''a'')\<rparr>)
      \<and> Remove 5 (formatted_fs 64) (formatted_disk 64) (CHR ''/'' # replicate 255 (CHR ''a'')) False
       = (Ret False, formatted_disk 64)
      \<and> Create 5 (formatted_fs 64) (formatted_disk 64) (CHR ''/'' # replicate 255 (CHR ''a'')) 1
       = (Abort, formatted_disk 64)
      \<and> Mkdir 5 (formatted_fs 64) (formatted_disk 64) (CHR ''/'' # replicate 255 (CHR ''a''))
       = (Abort, formatted_disk 64)
      \<and> Open 5 (formatted_fs 64) (formatted_disk 64) (CHR ''/'' # replicate 255 (CHR ''a'')) = Abort"
    by (simp only: l)
  moreover from path_length_limit [of "CHR ''/'' # replicate 254 (CHR ''a'')" 5 "formatted_disk 64"
      FILE "directoryFile (formatted_fs 64)" "formatted_fs 64" False 1] b
  have "\<not> snd (splitPath (CHR ''/'' # replicate 254 (CHR ''a'')))" by blast
  ultimately show ?thesis using a b c by blast
qed

text \<open>
  Claim C8 as stated fails for \<open>create\<close>, \<open>mkdir\<close> and \<open>open\<close>: on a path of 256 bytes
  none of them fails silently; each stops the process on its assertion.
\<close>

theorem path_length_limit_counterexample:
  "length (CHR ''/'' # replicate 255 (CHR ''a'')) = 256
   \<and> fst (Create 5 (formatted_fs 64) (formatted_disk 64) (CHR ''/'' # replicate 255 (CHR ''a'')) 1)
       = Abort
   \<and> fst (Mkdir 5 (formatted_fs 64) (formatted_disk 64) (CHR ''/'' # replicate 255 (CHR ''a'')))
       = Abort
   \<and> Open 5 (formatted_fs 64) (formatted_disk 64) (CHR ''/'' # replicate 255 (CHR ''a'')) = Abort"
  by code_simp

section \<open>Opening a path that does not exist\<close>

text \<open>
  Claim C10. If the path resolves neither as a file nor, in the second attempt, as a
  directory, \<open>Open\<close> stops on its assertion. Conversely, whenever \<open>Open\<close> returns, it
  returns the handle of a header sector that one of the two resolutions found
  (\<open>exist\<close> and \<open>fhSector \<ge> 0\<close>); the result type has no null handle.
\<close>

theorem Open_absent_aborts:
  "(FileFinder_find fuel d new_FileFinder p FILE (directoryFile fs) = Ret f1 \<and> \<not> exist f1
      \<and> FileFinder_find fuel d f1 p DIR (directoryFile fs) = Ret f2 \<and> \<not> exist f2
      \<longrightarrow> Open fuel fs d p = Abort)
   \<and> (Open fuel fs d p = Ret h \<longrightarrow>
        (\<exists>f. exist f \<and> 0 \<le> fhSector f \<and> new_OpenFile fuel d (fhSector f) = Ret h
           \<and> (FileFinder_find fuel d new_FileFinder p FILE (directoryFile fs) = Ret f
              \<or> (\<exists>f0. FileFinder_find fuel d new_FileFinder p FILE (directoryFile fs) = Ret f0
                   \<and> FileFinder_find fuel d f0 p DIR (directoryFile fs) = Ret f))))"
proof (intro conjI impI)
  assume "FileFinder_find fuel d new_FileFinder p FILE (directoryFile fs) = Ret f1 \<and> \<not> exist f1
      \<and> FileFinder_find fuel d f1 p DIR (directoryFile fs) = Ret f2 \<and> \<not> exist f2"
  then show "Open fuel fs d p = Abort" by (simp add: Open_def)
next
  assume o: "Open fuel fs d p = Ret h"
  then obtain g1 where g1: "FileFinder_find fuel d new_FileFinder p FILE (directoryFile fs) = Ret g1"
    by (auto simp: Open_def split: result.splits)
  show "\<exists>f. exist f \<and> 0 \<le> fhSector f \<and> new_OpenFile fuel d (fhSector f) = Ret h
           \<and> (FileFinder_find fuel d new_FileFinder p FILE (directoryFile fs) = Ret f
              \<or> (\<exists>f0. FileFinder_find fuel d new_FileFinder p FILE (directoryFile fs) = Ret f0
                   \<and> FileFinder_find fuel d f0 p DIR (directoryFile fs) = Ret f))"
  proof (cases "exist g1")
    case True
    with o g1 show ?thesis by (auto simp: Open_def split: if_splits)
  next
    case False
    with o g1 obtain g2 where g2: "FileFinder_find fuel d g1 p DIR (directoryFile fs) = Ret g2"
      by (auto simp: Open_def split: result.splits)
    with o g1 False show ?thesis by (auto simp: Open_def split: if_splits)
  qed
qed

theorem Open_absent_aborts_witness:
  "FileFinder_find 5 (formatted_disk 64) new_FileFinder ''/x'' FILE (directoryFile (formatted_fs 64))
     = Ret (new_FileFinder\<lparr>filename := ''x'', pFhSector := 1\<rparr>)
   \<and> \<not> exist (new_FileFinder\<lparr>filename := ''x'', pFhSector := 1\<rparr>)
   \<and> FileFinder_find 5 (formatted_disk 64) (new_FileFinder\<lparr>filename := ''x'', pFhSector := 1\<rparr>)
        ''/x'' DIR (directoryFile (formatted_fs 64))
     = Ret (new_FileFinder\<lparr>filename := ''x'', pFhSector := 1\<rparr>)
   \<and> Open 5 (formatted_fs 64) (formatted_disk 64) ''/x'' = Abort
   \<and> Open 5 (formatted_fs 64) disk_f ''/f''
     = Ret \<lparr>hdr = FileHeader 1 1 (14 # replicate 29 (- 1)) [14] [], seekPosition = 0\<rparr>
   \<and> (\<exists>f. exist f \<and> 0 \<le> fhSector f
        \<and> new_OpenFile 5 disk_f (fhSector f)
           = Ret \<lparr>hdr = FileHeader 1 1 (14 # replicate 29 (- 1)) [14] [], seekPosition = 0\<rparr>
        \<and> (FileFinder_find 5 disk_f new_FileFinder ''/f'' FILE (directoryFile (formatted_fs 64)) = Ret f
           \<or> (\<exists>f0. FileFinder_find 5 disk_f new_FileFinder ''/f'' FILE (directoryFile (formatted_fs 64))
                    = Ret f0
                \<and> FileFinder_find 5 disk_f f0 ''/f'' DIR (directoryFile (formatted_fs 64)) = Ret f)))"
proof -
  have a: "FileFinder_find 5 (formatted_disk 64) new_FileFinder ''/x'' FILE
      (directoryFile (formatted_fs 64)) = Ret (new_FileFinder\<lparr>filename := ''x'', pFhSector := 1\<rparr>)"
    by code_simp
  have b: "\<not> exist (new_FileFinder\<lparr>filename := ''x'', pFhSector := 1\<rparr>)"
    by (simp add: new_FileFinder_def)
  have c: "FileFinder_find 5 (formatted_disk 64) (new_FileFinder\<lparr>filename := ''x'', pFhSector := 1\<rparr>)
        ''/x'' DIR (directoryFile (formatted_fs 64))
     = Ret (new_FileFinder\<lparr>filename := ''x'', pFhSector := 1\<rparr>)"
    by code_simp
  have o: "Open 5 (formatted_fs 64) disk_f ''/f''
     = Ret \<lparr>hdr = FileHeader 1 1 (14 # replicate 29 (- 1)) [14] [], seekPosition = 0\<rparr>"
    by code_simp
  note t = Open_absent_aborts [of 5 "formatted_disk 64" "''/x''" "formatted_fs 64"
      "new_FileFinder\<lparr>filename := ''x'', pFhSector := 1\<rparr>"
      "new_FileFinder\<lparr>filename := ''x'', pFhSector := 1\<rparr>"]
  from t a b c have x: "Open 5 (formatted_fs 64) (formatted_disk 64) ''/x'' = Abort" by blast
  note u = Open_absent_aborts [of 5 disk_f "''/f''" "formatted_fs 64" _ _
      "\<lparr>hdr = FileHeader 1 1 (14 # replicate 29 (- 1)) [14] [], seekPosition = 0\<rparr>"]
  from u o have y: "\<exists>f. exist f \<and> 0 \<le> fhSector f
        \<and> new_OpenFile 5 disk_f (fhSector f)
           = Ret \<lparr>hdr = FileHeader 1 1 (14 # replicate 29 (- 1)) [14] [], seekPosition = 0\<rparr>
        \<and> (FileFinder_find 5 disk_f new_FileFinder ''/f'' FILE (directoryFile (formatted_fs 64)) = Ret f
           \<or> (\<exists>f0. FileFinder_find 5 disk_f new_FileFinder ''/f'' FILE (directoryFile (formatted_fs 64))
                    = Ret f0
                \<and> FileFinder_find 5 disk_f f0 ''/f'' DIR (directoryFile (formatted_fs 64)) = Ret f))"
    by blast
  from a b c x o y show ?thesis by (intro conjI)
qed

section \<open>Creating a name that exists\<close>

lemma splitPath_loop_no_slash:
  "CHR ''/'' \<notin> set nm \<Longrightarrow> splitPath_loop nm r t i = (r, t @ nm, i + length nm)"
  by (induction nm arbitrary: t i) auto

lemma splitPath_loop_append:
  "CHR ''/'' \<notin> set nm \<Longrightarrow>
     splitPath_loop (pp @ CHR ''/'' # nm) r t i =
       (case splitPath_loop pp r t i of (r1, t1, i1) \<Rightarrow> (r1 @ [t1], nm, i1 + 1 + length nm))"
  by (induction pp arbitrary: r t i) (auto simp: splitPath_loop_no_slash)

lemma splitPath_append:
  assumes "CHR ''/'' \<notin> set nm"
  shows "fst (splitPath (pp @ CHR ''/'' # nm)) = fst (splitPath pp) @ [nm]"
  using splitPath_loop_append[OF assms, of pp "[]" "[]" 0]
  by (simp add: splitPath_def split: prod.splits)

lemma splitPath_nonempty: "fst (splitPath p) \<noteq> []"
  by (simp add: splitPath_def split: prod.splits)

lemma find_loop_step:
  assumes "i < length path"
  shows "find_loop fuel d path isDir' i openPfh this =
     (if Directory_Find (Directory_FetchFrom (new_Directory NumDirEntries) d openPfh) (path ! i)
              (if i = length path - 1 then isDir' else DIR) = INVALID_SECTOR
      then Ret (step_finder this i INVALID_SECTOR)
      else (case new_OpenFile fuel d
                   (Directory_Find (Directory_FetchFrom (new_Directory NumDirEntries) d openPfh)
                      (path ! i) (if i = length path - 1 then isDir' else DIR)) of
              Ret file \<Rightarrow> find_loop fuel d path isDir' (i + 1) file
                  (step_finder this i
                     (Directory_Find (Directory_FetchFrom (new_Directory NumDirEntries) d openPfh)
                        (path ! i) (if i = length path - 1 then isDir' else DIR)))
            | Abort \<Rightarrow> Abort | OutOfFuel \<Rightarrow> OutOfFuel))"
  by (subst find_loop.simps) (simp only: assms if_True step_finder_def)

lemma find_loop_end:
  "\<not> i < length path \<Longrightarrow> find_loop fuel d path isDir' i openPfh this = Ret (this\<lparr>exist := True\<rparr>)"
  by (subst find_loop.simps) simp

text \<open>The walk to the parent and the walk to the child pass through the same directories.\<close>

lemma find_loop_parent_prefix:
  assumes "find_loop fuel d comps DIR i openPfh this = Ret pf" "exist pf" "\<not> exist this"
    and "1 \<le> i" "i \<le> length comps"
  shows "\<exists>hf. find_loop fuel d (comps @ [nm]) isDir' i openPfh (this\<lparr>filename := x\<rparr>)
           = find_loop fuel d (comps @ [nm]) isDir' (length comps) hf
               (pf\<lparr>exist := False, filename := x\<rparr>)
         \<and> (if i = length comps then hf = openPfh
             else new_OpenFile fuel d (fhSector pf) = Ret hf)"
  using assms
proof (induction "length comps - i" arbitrary: i openPfh this)
  case 0
  then have e: "i = length comps" by simp
  with 0 have "pf = this\<lparr>exist := True\<rparr>" by (simp add: find_loop_end)
  with 0(4) have "pf\<lparr>exist := False, filename := x\<rparr> = this\<lparr>filename := x\<rparr>" by simp
  with e show ?case by (intro exI[of _ openPfh]) simp
next
  case (Suc k)
  then have il: "i < length comps" by simp
  define s where "s = Directory_Find (Directory_FetchFrom (new_Directory NumDirEntries) d openPfh)
      (comps ! i) DIR"
  have s1: "Directory_Find (Directory_FetchFrom (new_Directory NumDirEntries) d openPfh)
      (comps ! i) (if i = length comps - 1 then DIR else DIR) = s" by (simp add: s_def)
  have sv: "s \<noteq> INVALID_SECTOR"
  proof
    assume "s = INVALID_SECTOR"
    with Suc.prems(1) s1 have "pf = step_finder this i INVALID_SECTOR"
      by (simp add: find_loop_step[OF il])
    with Suc.prems(2,3) show False by (simp add: step_finder_def)
  qed
  from Suc.prems(1) s1 sv obtain hf1 where
    o: "new_OpenFile fuel d s = Ret hf1"
    and r: "find_loop fuel d comps DIR (i + 1) hf1 (step_finder this i s) = Ret pf"
    by (auto simp: find_loop_step[OF il] split: result.splits)
  have ne: "\<not> exist (step_finder this i s)" using Suc.prems(3) by (simp add: step_finder_def)
  have k: "k = length comps - (i + 1)" using Suc.hyps(2) by simp
  from Suc.hyps(1)[OF k r Suc.prems(2) ne] il
  obtain hf where
    f: "find_loop fuel d (comps @ [nm]) isDir' (i + 1) hf1 ((step_finder this i s)\<lparr>filename := x\<rparr>)
           = find_loop fuel d (comps @ [nm]) isDir' (length comps) hf
               (pf\<lparr>exist := False, filename := x\<rparr>)"
    and g: "if i + 1 = length comps then hf = hf1
             else new_OpenFile fuel d (fhSector pf) = Ret hf"
    by auto
  have il': "i < length (comps @ [nm])" using il by simp
  have s2: "Directory_Find (Directory_FetchFrom (new_Directory NumDirEntries) d openPfh)
      ((comps @ [nm]) ! i) (if i = length (comps @ [nm]) - 1 then isDir' else DIR) = s"
    using il by (simp add: s_def nth_append)
  have st: "step_finder (this\<lparr>filename := x\<rparr>) i s = (step_finder this i s)\<lparr>filename := x\<rparr>"
    by (simp add: step_finder_def)
  have c: "find_loop fuel d (comps @ [nm]) isDir' i openPfh (this\<lparr>filename := x\<rparr>)
      = find_loop fuel d (comps @ [nm]) isDir' (i + 1) hf1 ((step_finder this i s)\<lparr>filename := x\<rparr>)"
    by (subst find_loop_step[OF il']) (simp only: s2 sv if_False o result.case st)
  have fh: "i + 1 = length comps \<Longrightarrow> fhSector pf = s"
  proof -
    assume "i + 1 = length comps"
    with r have "pf = (step_finder this i s)\<lparr>exist := True\<rparr>" by (simp add: find_loop_end)
    then show ?thesis by (simp add: step_finder_def)
  qed
  have "new_OpenFile fuel d (fhSector pf) = Ret hf"
  proof (cases "i + 1 = length comps")
    case True
    with g fh o show ?thesis by simp
  next
    case False
    with g show ?thesis by simp
  qed
  with c f il show ?case by (intro exI[of _ hf]) simp
qed

lemma splitPath_length_ge2:
  assumes "CHR ''/'' \<in> set pp"
  shows "2 \<le> length (fst (splitPath pp))"
proof -
  from split_list_last[OF assms] obtain a b where
    "pp = a @ CHR ''/'' # b" "CHR ''/'' \<notin> set b" by blast
  then have "fst (splitPath pp) = fst (splitPath a) @ [b]" by (simp add: splitPath_append)
  moreover have "fst (splitPath a) \<noteq> []" by (rule splitPath_nonempty)
  ultimately show ?thesis by (cases "fst (splitPath a)") simp_all
qed

lemma find_loop_last_found:
  assumes "i + 1 = length path"
    and "Directory_Find (Directory_FetchFrom (new_Directory NumDirEntries) d openPfh) (path ! i)
           isDir' = s" "s \<noteq> INVALID_SECTOR"
    and "new_OpenFile fuel d s = Ret h"
  shows "find_loop fuel d path isDir' i openPfh this = Ret ((step_finder this i s)\<lparr>exist := True\<rparr>)"
proof -
  have il: "i < length path" and e: "i = length path - 1" using assms(1) by simp_all
  have ni: "\<not> i + 1 < length path" using assms(1) by simp
  show ?thesis
    by (subst find_loop_step[OF il])
       (simp only: e[symmetric] refl if_True assms(2,3,4) if_False result.case find_loop_end[OF ni])
qed

lemma find_file_in_parent:
  assumes nm: "CHR ''/'' \<notin> set nm" "nm \<noteq> []"
    and len: "length (pp @ CHR ''/'' # nm) < PATH_NAME_MAX_LEN"
    and parent: "(pp = [] \<and> parent = directoryFile fs)
       \<or> (\<exists>pf. CHR ''/'' \<in> set pp \<and> pp \<noteq> ''/''
             \<and> FileFinder_find fuel d new_FileFinder pp DIR (directoryFile fs) = Ret pf \<and> exist pf
             \<and> new_OpenFile fuel d (fhSector pf) = Ret parent)"
    and entry: "Directory_Find (Directory_FetchFrom (new_Directory NumDirEntries) d parent) nm isDir'
                 = s" "s \<noteq> INVALID_SECTOR"
    and opens: "new_OpenFile fuel d s = Ret h"
  shows "\<exists>f. FileFinder_find fuel d new_FileFinder (pp @ CHR ''/'' # nm) isDir' (directoryFile fs)
            = Ret f \<and> exist f"
proof -
  define comps where "comps = fst (splitPath pp)"
  have path: "fst (splitPath (pp @ CHR ''/'' # nm)) = comps @ [nm]"
    by (simp add: comps_def splitPath_append[OF nm(1)])
  have nex: "\<not> snd (splitPath (pp @ CHR ''/'' # nm))"
    using len by (simp add: splitPath_exceed)
  have nroot: "pp @ CHR ''/'' # nm \<noteq> ''/''" using nm(2) by (cases pp) auto
  have ff: "FileFinder_find fuel d new_FileFinder (pp @ CHR ''/'' # nm) isDir' (directoryFile fs)
      = find_loop fuel d (comps @ [nm]) isDir' 1 (directoryFile fs) (new_FileFinder\<lparr>filename := nm\<rparr>)"
    using path nex nroot
    by (cases "splitPath (pp @ CHR ''/'' # nm)") (simp add: FileFinder_find_def)
  have nth: "(comps @ [nm]) ! length comps = nm" by simp
  from parent show ?thesis
  proof
    assume r: "pp = [] \<and> parent = directoryFile fs"
    then have c1: "comps = [[]]" by (simp add: comps_def splitPath_def)
    have "find_loop fuel d (comps @ [nm]) isDir' 1 (directoryFile fs) (new_FileFinder\<lparr>filename := nm\<rparr>)
        = Ret ((step_finder (new_FileFinder\<lparr>filename := nm\<rparr>) 1 s)\<lparr>exist := True\<rparr>)"
      by (rule find_loop_last_found[where s = s and h = h])
         (use c1 r entry opens in simp_all)
    with ff show ?thesis by simp
  next
    assume "\<exists>pf. CHR ''/'' \<in> set pp \<and> pp \<noteq> ''/''
             \<and> FileFinder_find fuel d new_FileFinder pp DIR (directoryFile fs) = Ret pf \<and> exist pf
             \<and> new_OpenFile fuel d (fhSector pf) = Ret parent"
    then obtain pf where sl: "CHR ''/'' \<in> set pp" and nr: "pp \<noteq> ''/''"
      and pfind: "FileFinder_find fuel d new_FileFinder pp DIR (directoryFile fs) = Ret pf"
      and pex: "exist pf" and pop: "new_OpenFile fuel d (fhSector pf) = Ret parent"
      by blast
    have l2: "2 \<le> length comps" using splitPath_length_ge2[OF sl] by (simp add: comps_def)
    have pnex: "\<not> snd (splitPath pp)" using len by (simp add: splitPath_exceed)
    have pl: "find_loop fuel d comps DIR 1 (directoryFile fs) (new_FileFinder\<lparr>filename := last comps\<rparr>)
        = Ret pf"
      using pfind pnex nr
      by (cases "splitPath pp") (simp add: FileFinder_find_def comps_def)
    have ne: "\<not> exist (new_FileFinder\<lparr>filename := last comps\<rparr>)" by (simp add: new_FileFinder_def)
    from find_loop_parent_prefix[OF pl pex ne, of nm isDir' nm] l2
    obtain hf where
      w: "find_loop fuel d (comps @ [nm]) isDir' 1 (directoryFile fs)
            (new_FileFinder\<lparr>filename := last comps, filename := nm\<rparr>)
          = find_loop fuel d (comps @ [nm]) isDir' (length comps) hf (pf\<lparr>exist := False, filename := nm\<rparr>)"
      and hf: "new_OpenFile fuel d (fhSector pf) = Ret hf"
      by auto
    from hf pop have hp: "hf = parent" by simp
    have "find_loop fuel d (comps @ [nm]) isDir' (length comps) hf (pf\<lparr>exist := False, filename := nm\<rparr>)
        = Ret ((step_finder (pf\<lparr>exist := False, filename := nm\<rparr>) (length comps) s)\<lparr>exist := True\<rparr>)"
      by (rule find_loop_last_found[where s = s and h = h])
         (use hp entry opens in simp_all)
    with w ff show ?thesis by simp
  qed
qed

text \<open>
  Claim C1, as amended. \<open>Create\<close> resolves the path with type \<open>FILE\<close> only. For every
  parent directory (the root, for a path \<open>/name\<close>, or a directory that a path \<open>pp\<close>
  resolves to) and every name: if the parent's table holds a file of that name, that is,
  if \<open>Directory::Find(name, FILE)\<close> on it yields a sector \<open>s\<close> (whose header can be read),
  then \<open>Create\<close> of \<open>pp/name\<close> returns false and the disk is unchanged.
\<close>

theorem Create_existing_file_fails:
  assumes "CHR ''/'' \<notin> set nm" "nm \<noteq> []"
    and "length (pp @ CHR ''/'' # nm) < PATH_NAME_MAX_LEN"
    and "(pp = [] \<and> parent = directoryFile fs)
       \<or> (\<exists>pf. CHR ''/'' \<in> set pp \<and> pp \<noteq> ''/''
             \<and> FileFinder_find fuel d new_FileFinder pp DIR (directoryFile fs) = Ret pf \<and> exist pf
             \<and> new_OpenFile fuel d (fhSector pf) = Ret parent)"
    and "Directory_Find (Directory_FetchFrom (new_Directory NumDirEntries) d parent) nm FILE = s"
    and "s \<noteq> INVALID_SECTOR"
    and "new_OpenFile fuel d s = Ret h"
  shows "Create fuel fs d (pp @ CHR ''/'' # nm) initialSize = (Ret False, d)"
proof -
  from find_file_in_parent[OF assms] obtain f where
    "FileFinder_find fuel d new_FileFinder (pp @ CHR ''/'' # nm) FILE (directoryFile fs) = Ret f"
    "exist f" by blast
  then show ?thesis by (simp add: Create_def createFileOrDir_def)
qed

theorem Create_existing_file_fails_witness:
  "fst (Create 5 (formatted_fs 64) (formatted_disk 64) ''/f'' 1) = Ret True
   \<and> Directory_Find (root_directory (formatted_fs 64) disk_f) ''f'' FILE = 13
   \<and> Create 5 (formatted_fs 64) disk_f ''/f'' 7 = (Ret False, disk_f)
   \<and> FileFinder_find 5 disk_def new_FileFinder ''/d/e'' DIR (directoryFile (formatted_fs 64))
       = Ret \<lparr>exist = True, pFhSector = 13, fhSector = 24, filename = ''e''\<rparr>
   \<and> Directory_Find
        (Directory_FetchFrom (new_Directory NumDirEntries) disk_def
           \<lparr>hdr = FileHeader 1280 10 (map int [25..<35] @ replicate 20 (- 1)) (map int [25..<35]) [],
             seekPosition = 0\<rparr>) ''f'' FILE = 35
   \<and> Create 5 (formatted_fs 64) disk_def ''/d/e/f'' 3 = (Ret False, disk_def)"
proof -
  have c: "fst (Create 5 (formatted_fs 64) (formatted_disk 64) ''/f'' 1) = Ret True" by code_simp
  have r1: "Directory_Find
      (Directory_FetchFrom (new_Directory NumDirEntries) disk_f (directoryFile (formatted_fs 64)))
      ''f'' FILE = 13"
    by code_simp
  have r2: "new_OpenFile 5 disk_f 13
      = Ret \<lparr>hdr = FileHeader 1 1 (14 # replicate 29 (- 1)) [14] [], seekPosition = 0\<rparr>"
    by code_simp
  have root: "Create 5 (formatted_fs 64) disk_f ([] @ CHR ''/'' # ''f'') 7 = (Ret False, disk_f)"
    by (rule Create_existing_file_fails [where parent = "directoryFile (formatted_fs 64)"
          and s = 13, OF _ _ _ _ r1 _ r2])
       (simp_all add: PATH_NAME_MAX_LEN_def INVALID_SECTOR_def)
  have n1: "FileFinder_find 5 disk_def new_FileFinder ''/d/e'' DIR (directoryFile (formatted_fs 64))
       = Ret \<lparr>exist = True, pFhSector = 13, fhSector = 24, filename = ''e''\<rparr>"
    by code_simp
  have n2: "new_OpenFile 5 disk_def 24
      = Ret \<lparr>hdr = FileHeader 1280 10 (map int [25..<35] @ replicate 20 (- 1)) (map int [25..<35]) [],
          seekPosition = 0\<rparr>"
    by code_simp
  have n3: "Directory_Find
        (Directory_FetchFrom (new_Directory NumDirEntries) disk_def
           \<lparr>hdr = FileHeader 1280 10 (map int [25..<35] @ replicate 20 (- 1)) (map int [25..<35]) [],
             seekPosition = 0\<rparr>) ''f'' FILE = 35"
    by code_simp
  have n4: "new_OpenFile 5 disk_def 35
      = Ret \<lparr>hdr = FileHeader 10 1 (36 # replicate 29 (- 1)) [36] [], seekPosition = 0\<rparr>"
    by code_simp
  have par: "(''/d/e'' = [] \<and>
        \<lparr>hdr = FileHeader 1280 10 (map int [25..<35] @ replicate 20 (- 1)) (map int [25..<35]) [],
          seekPosition = 0\<rparr> = directoryFile (formatted_fs 64))
       \<or> (\<exists>pf. CHR ''/'' \<in> set ''/d/e'' \<and> ''/d/e'' \<noteq> ''/''
             \<and> FileFinder_find 5 disk_def new_FileFinder ''/d/e'' DIR (directoryFile (formatted_fs 64))
                 = Ret pf \<and> exist pf
             \<and> new_OpenFile 5 disk_def (fhSector pf)
                 = Ret \<lparr>hdr = FileHeader 1280 10 (map int [25..<35] @ replicate 20 (- 1))
                            (map int [25..<35]) [], seekPosition = 0\<rparr>)"
    by (rule disjI2, rule exI [of _ "\<lparr>exist = True, pFhSector = 13, fhSector = 24, filename = ''e''\<rparr>"])
       (simp add: n1 n2)
  have nested: "Create 5 (formatted_fs 64) disk_def (''/d/e'' @ CHR ''/'' # ''f'') 3 = (Ret False, disk_def)"
    by (rule Create_existing_file_fails [where s = 35, OF _ _ _ par n3 _ n4])
       (simp_all add: PATH_NAME_MAX_LEN_def INVALID_SECTOR_def)
  from c r1 root n1 n3 nested show ?thesis by (simp add: root_directory_def)
qed

text \<open>
  Claim C1 as stated fails: after \<open>mkdir /a\<close> has succeeded, the root directory holds an
  entry \<open>a\<close> of type directory (its header in sector 13), and \<open>create /a 1\<close> returns true.
\<close>

theorem Create_over_directory_counterexample:
  "fst (Mkdir 5 (formatted_fs 64) (formatted_disk 64) ''/a'') = Ret True
   \<and> Directory_Find (root_directory (formatted_fs 64) disk_a) ''a'' DIR = 13
   \<and> fst (Create 5 (formatted_fs 64) disk_a ''/a'' 1) = Ret True"
  by code_simp

section \<open>Removing a file that is not there\<close>

lemma find_loop_last_absent:
  assumes "i + 1 = length path"
    and "Directory_Find (Directory_FetchFrom (new_Directory NumDirEntries) d openPfh) (path ! i)
           isDir' = INVALID_SECTOR"
  shows "find_loop fuel d path isDir' i openPfh this = Ret (step_finder this i INVALID_SECTOR)"
proof -
  have il: "i < length path" and e: "i = length path - 1" using assms(1) by simp_all
  show ?thesis
    by (subst find_loop_step[OF il]) (simp only: e[symmetric] refl if_True assms(2))
qed

text \<open>A walk that fails on the way to the parent fails in the same way on the way to the child.\<close>

lemma find_loop_prefix_absent:
  assumes "find_loop fuel d comps DIR i openPfh this = Ret pf" "\<not> exist pf" "\<not> exist this'"
  shows "\<exists>f. find_loop fuel d (comps @ [nm]) isDir' i openPfh this' = Ret f \<and> \<not> exist f"
  using assms
proof (induction "length comps - i" arbitrary: i openPfh this this')
  case 0
  then have "\<not> i < length comps" by simp
  with 0(2) have "pf = this\<lparr>exist := True\<rparr>" by (simp add: find_loop_end)
  with 0(3) show ?case by simp
next
  case (Suc k)
  then have il: "i < length comps" by simp
  have il': "i < length (comps @ [nm])" using il by simp
  define s where "s = Directory_Find (Directory_FetchFrom (new_Directory NumDirEntries) d openPfh)
      (comps ! i) DIR"
  have s1: "Directory_Find (Directory_FetchFrom (new_Directory NumDirEntries) d openPfh)
      (comps ! i) (if i = length comps - 1 then DIR else DIR) = s" by (simp add: s_def)
  have s2: "Directory_Find (Directory_FetchFrom (new_Directory NumDirEntries) d openPfh)
      ((comps @ [nm]) ! i) (if i = length (comps @ [nm]) - 1 then isDir' else DIR) = s"
    using il by (simp add: s_def nth_append)
  show ?case
  proof (cases "s = INVALID_SECTOR")
    case True
    have "find_loop fuel d (comps @ [nm]) isDir' i openPfh this'
        = Ret (step_finder this' i INVALID_SECTOR)"
      by (subst find_loop_step[OF il']) (simp only: s2 True refl if_True)
    moreover have "\<not> exist (step_finder this' i INVALID_SECTOR)"
      using Suc.prems(3) by (simp add: step_finder_def)
    ultimately show ?thesis by simp
  next
    case False
    from Suc.prems(1) s1 False obtain hf1 where
      o: "new_OpenFile fuel d s = Ret hf1"
      and r: "find_loop fuel d comps DIR (i + 1) hf1 (step_finder this i s) = Ret pf"
      by (auto simp: find_loop_step[OF il] split: result.splits)
    have ne: "\<not> exist (step_finder this' i s)" using Suc.prems(3) by (simp add: step_finder_def)
    have k: "k = length comps - (i + 1)" using Suc.hyps(2) by simp
    have c: "find_loop fuel d (comps @ [nm]) isDir' i openPfh this'
        = find_loop fuel d (comps @ [nm]) isDir' (i + 1) hf1 (step_finder this' i s)"
      by (subst find_loop_step[OF il']) (simp only: s2 False if_False o result.case)
    from Suc.hyps(1)[OF k r Suc.prems(2) ne] c show ?thesis by simp
  qed
qed

lemma find_absent_in_parent:
  assumes nm: "CHR ''/'' \<notin> set nm"
    and nroot: "pp @ CHR ''/'' # nm \<noteq> ''/''"
    and len: "length (pp @ CHR ''/'' # nm) < PATH_NAME_MAX_LEN"
    and parent: "(pp = [] \<and> Directory_Find (root_directory fs d) nm isDir' = INVALID_SECTOR)
       \<or> (\<exists>pf. CHR ''/'' \<in> set pp \<and> pp \<noteq> ''/''
             \<and> FileFinder_find fuel d new_FileFinder pp DIR (directoryFile fs) = Ret pf
             \<and> (exist pf \<longrightarrow>
                  (\<exists>parent. new_OpenFile fuel d (fhSector pf) = Ret parent
                     \<and> Directory_Find (Directory_FetchFrom (new_Directory NumDirEntries) d parent)
                          nm isDir' = INVALID_SECTOR)))"
  shows "\<exists>f. FileFinder_find fuel d new_FileFinder (pp @ CHR ''/'' # nm) isDir' (directoryFile fs)
            = Ret f \<and> \<not> exist f"
proof -
  define comps where "comps = fst (splitPath pp)"
  have path: "fst (splitPath (pp @ CHR ''/'' # nm)) = comps @ [nm]"
    by (simp add: comps_def splitPath_append[OF nm])
  have nex: "\<not> snd (splitPath (pp @ CHR ''/'' # nm))"
    using len by (simp add: splitPath_exceed)
  have ff: "FileFinder_find fuel d new_FileFinder (pp @ CHR ''/'' # nm) isDir' (directoryFile fs)
      = find_loop fuel d (comps @ [nm]) isDir' 1 (directoryFile fs) (new_FileFinder\<lparr>filename := nm\<rparr>)"
    using path nex nroot
    by (cases "splitPath (pp @ CHR ''/'' # nm)") (simp add: FileFinder_find_def)
  have ne0: "\<not> exist (new_FileFinder\<lparr>filename := x\<rparr>)" for x by (simp add: new_FileFinder_def)
  from parent show ?thesis
  proof
    assume r: "pp = [] \<and> Directory_Find (root_directory fs d) nm isDir' = INVALID_SECTOR"
    then have c1: "comps = [[]]" by (simp add: comps_def splitPath_def)
    have "find_loop fuel d (comps @ [nm]) isDir' 1 (directoryFile fs) (new_FileFinder\<lparr>filename := nm\<rparr>)
        = Ret (step_finder (new_FileFinder\<lparr>filename := nm\<rparr>) 1 INVALID_SECTOR)"
      by (rule find_loop_last_absent) (use c1 r in \<open>simp_all add: root_directory_def\<close>)
    with ff show ?thesis by (simp add: step_finder_def new_FileFinder_def)
  next
    assume "\<exists>pf. CHR ''/'' \<in> set pp \<and> pp \<noteq> ''/''
             \<and> FileFinder_find fuel d new_FileFinder pp DIR (directoryFile fs) = Ret pf
             \<and> (exist pf \<longrightarrow>
                  (\<exists>parent. new_OpenFile fuel d (fhSector pf) = Ret parent
                     \<and> Directory_Find (Directory_FetchFrom (new_Directory NumDirEntries) d parent)
                          nm isDir' = INVALID_SECTOR))"
    then obtain pf where sl: "CHR ''/'' \<in> set pp" and nr: "pp \<noteq> ''/''"
      and pfind: "FileFinder_find fuel d new_FileFinder pp DIR (directoryFile fs) = Ret pf"
      and pex: "exist pf \<longrightarrow>
                  (\<exists>parent. new_OpenFile fuel d (fhSector pf) = Ret parent
                     \<and> Directory_Find (Directory_FetchFrom (new_Directory NumDirEntries) d parent)
                          nm isDir' = INVALID_SECTOR)"
      by blast
    have l2: "2 \<le> length comps" using splitPath_length_ge2[OF sl] by (simp add: comps_def)
    have pnex: "\<not> snd (splitPath pp)" using len by (simp add: splitPath_exceed)
    have pl: "find_loop fuel d comps DIR 1 (directoryFile fs) (new_FileFinder\<lparr>filename := last comps\<rparr>)
        = Ret pf"
      using pfind pnex nr
      by (cases "splitPath pp") (simp add: FileFinder_find_def comps_def)
    show ?thesis
    proof (cases "exist pf")
      case False
      from find_loop_prefix_absent[where nm = nm and isDir' = isDir'
          and this' = "new_FileFinder\<lparr>filename := nm\<rparr>", OF pl False ne0] ff
      show ?thesis by simp
    next
      case True
      with pex obtain parent where pop: "new_OpenFile fuel d (fhSector pf) = Ret parent"
        and ent: "Directory_Find (Directory_FetchFrom (new_Directory NumDirEntries) d parent)
                          nm isDir' = INVALID_SECTOR"
        by blast
      from find_loop_parent_prefix[OF pl True ne0, of nm isDir' nm] l2
      obtain hf where
        w: "find_loop fuel d (comps @ [nm]) isDir' 1 (directoryFile fs)
              (new_FileFinder\<lparr>filename := last comps, filename := nm\<rparr>)
            = find_loop fuel d (comps @ [nm]) isDir' (length comps) hf (pf\<lparr>exist := False, filename := nm\<rparr>)"
        and hf: "new_OpenFile fuel d (fhSector pf) = Ret hf"
        by auto
      from hf pop have hp: "hf = parent" by simp
      have "find_loop fuel d (comps @ [nm]) isDir' (length comps) hf (pf\<lparr>exist := False, filename := nm\<rparr>)
          = Ret (step_finder (pf\<lparr>exist := False, filename := nm\<rparr>) (length comps) INVALID_SECTOR)"
        by (rule find_loop_last_absent) (use hp ent in simp_all)
      with w ff show ?thesis by (simp add: step_finder_def)
    qed
  qed
qed

text \<open>
  Claim C9, as amended. Take a path \<open>pp/name\<close> other than \<open>"/"\<close>, where \<open>name\<close> holds
  no slash and \<open>pp\<close> is empty (the parent is the root) or a path with a slash other than
  \<open>"/"\<close>. If the parent's table holds no file of that name, that is, if
  \<open>Directory::Find(name, FILE)\<close> on the root table, or on the table of the directory
  that \<open>pp\<close> resolves to, yields \<open>INVALID_SECTOR\<close>, or if \<open>pp\<close> does not resolve to a
  directory at all, then \<open>Remove(pp/name, false)\<close> returns false and the disk, including
  the list of its writes, is unchanged. So a second \<open>Remove\<close> after a successful one
  changes nothing.
\<close>

theorem Remove_absent_file:
  assumes "CHR ''/'' \<notin> set nm"
    and "pp @ CHR ''/'' # nm \<noteq> ''/''"
    and "(pp = [] \<and> Directory_Find (root_directory fs d) nm FILE = INVALID_SECTOR)
       \<or> (\<exists>pf. CHR ''/'' \<in> set pp \<and> pp \<noteq> ''/''
             \<and> FileFinder_find fuel d new_FileFinder pp DIR (directoryFile fs) = Ret pf
             \<and> (exist pf \<longrightarrow>
                  (\<exists>parent. new_OpenFile fuel d (fhSector pf) = Ret parent
                     \<and> Directory_Find (Directory_FetchFrom (new_Directory NumDirEntries) d parent)
                          nm FILE = INVALID_SECTOR)))"
  shows "Remove fuel fs d (pp @ CHR ''/'' # nm) False = (Ret False, d)"
proof (cases "length (pp @ CHR ''/'' # nm) < PATH_NAME_MAX_LEN")
  case False
  then have "PATH_NAME_MAX_LEN \<le> length (pp @ CHR ''/'' # nm)" by simp
  then show ?thesis by (rule Remove_too_long)
next
  case True
  from find_absent_in_parent[OF assms(1,2) True assms(3)] obtain f where
    "FileFinder_find fuel d new_FileFinder (pp @ CHR ''/'' # nm) FILE (directoryFile fs) = Ret f"
    "\<not> exist f" by blast
  then have "Remove_single fuel fs d (pp @ CHR ''/'' # nm) = (Ret False, d)"
    by (rule Remove_single_not_found)
  then show ?thesis by (simp add: Remove_def)
qed

theorem Remove_absent_file_witness:
  "Directory_Find (root_directory (formatted_fs 64) (formatted_disk 64)) ''x'' FILE = INVALID_SECTOR
   \<and> Remove 5 (formatted_fs 64) (formatted_disk 64) ''/x'' False = (Ret False, formatted_disk 64)
   \<and> fst (Remove 5 (formatted_fs 64) disk_f ''/f'' False) = Ret True
   \<and> Directory_Find (root_directory (formatted_fs 64) disk_f_removed) ''f'' FILE = INVALID_SECTOR
   \<and> Remove 5 (formatted_fs 64) disk_f_removed ''/f'' False = (Ret False, disk_f_removed)
   \<and> FileFinder_find 5 disk_def new_FileFinder ''/d/e'' DIR (directoryFile (formatted_fs 64))
       = Ret \<lparr>exist = True, pFhSector = 13, fhSector = 24, filename = ''e''\<rparr>
   \<and> Directory_Find
        (Directory_FetchFrom (new_Directory NumDirEntries) disk_def
           \<lparr>hdr = FileHeader 1280 10 (map int [25..<35] @ replicate 20 (- 1)) (map int [25..<35]) [],
             seekPosition = 0\<rparr>) ''x'' FILE = INVALID_SECTOR
   \<and> Remove 5 (formatted_fs 64) disk_def ''/d/e/x'' False = (Ret False, disk_def)
   \<and> FileFinder_find 5 disk_f new_FileFinder ''/nodir'' DIR (directoryFile (formatted_fs 64))
       = Ret \<lparr>exist = False, pFhSector = 1, fhSector = - 1, filename = ''nodir''\<rparr>
   \<and> Remove 5 (formatted_fs 64) disk_f ''/nodir/f'' False = (Ret False, disk_f)"
proof -
  have r1: "Directory_Find (root_directory (formatted_fs 64) (formatted_disk 64)) ''x'' FILE
      = INVALID_SECTOR" by code_simp
  have w1: "Remove 5 (formatted_fs 64) (formatted_disk 64) ([] @ CHR ''/'' # ''x'') False
      = (Ret False, formatted_disk 64)"
    by (rule Remove_absent_file) (simp_all add: r1)
  have c: "fst (Remove 5 (formatted_fs 64) disk_f ''/f'' False) = Ret True" by code_simp
  have r2: "Directory_Find (root_directory (formatted_fs 64) disk_f_removed) ''f'' FILE
      = INVALID_SECTOR" by code_simp
  have w2: "Remove 5 (formatted_fs 64) disk_f_removed ([] @ CHR ''/'' # ''f'') False
      = (Ret False, disk_f_removed)"
    by (rule Remove_absent_file) (simp_all add: r2)
  have n1: "FileFinder_find 5 disk_def new_FileFinder ''/d/e'' DIR (directoryFile (formatted_fs 64))
       = Ret \<lparr>exist = True, pFhSector = 13, fhSector = 24, filename = ''e''\<rparr>"
    by code_simp
  have n2: "new_OpenFile 5 disk_def 24
      = Ret \<lparr>hdr = FileHeader 1280 10 (map int [25..<35] @ replicate 20 (- 1)) (map int [25..<35]) [],
          seekPosition = 0\<rparr>"
    by code_simp
  have n3: "Directory_Find
        (Directory_FetchFrom (new_Directory NumDirEntries) disk_def
           \<lparr>hdr = FileHeader 1280 10 (map int [25..<35] @ replicate 20 (- 1)) (map int [25..<35]) [],
             seekPosition = 0\<rparr>) ''x'' FILE = INVALID_SECTOR"
    by code_simp
  have par: "(''/d/e'' = [] \<and> Directory_Find (root_directory (formatted_fs 64) disk_def) ''x'' FILE
          = INVALID_SECTOR)
       \<or> (\<exists>pf. CHR ''/'' \<in> set ''/d/e'' \<and> ''/d/e'' \<noteq> ''/''
             \<and> FileFinder_find 5 disk_def new_FileFinder ''/d/e'' DIR (directoryFile (formatted_fs 64))
                 = Ret pf
             \<and> (exist pf \<longrightarrow>
                  (\<exists>parent. new_OpenFile 5 disk_def (fhSector pf) = Ret parent
                     \<and> Directory_Find (Directory_FetchFrom (new_Directory NumDirEntries) disk_def parent)
                          ''x'' FILE = INVALID_SECTOR)))"
  proof (rule disjI2,
      rule exI [of _ "\<lparr>exist = True, pFhSector = 13, fhSector = 24, filename = ''e''\<rparr>"],
      intro conjI impI)
    show "CHR ''/'' \<in> set ''/d/e''" by simp
    show "''/d/e'' \<noteq> ''/''" by simp
    show "FileFinder_find 5 disk_def new_FileFinder ''/d/e'' DIR (directoryFile (formatted_fs 64))
        = Ret \<lparr>exist = True, pFhSector = 13, fhSector = 24, filename = ''e''\<rparr>"
      by (rule n1)
    show "\<exists>parent.
        new_OpenFile 5 disk_def
          (fhSector \<lparr>exist = True, pFhSector = 13, fhSector = 24, filename = ''e''\<rparr>) = Ret parent
        \<and> Directory_Find (Directory_FetchFrom (new_Directory NumDirEntries) disk_def parent)
              ''x'' FILE = INVALID_SECTOR"
      by (rule exI [of _ "\<lparr>hdr = FileHeader 1280 10 (map int [25..<35] @ replicate 20 (- 1))
            (map int [25..<35]) [], seekPosition = 0\<rparr>"])
         (simp only: FileFinder.select_convs n2 n3 simp_thms)
  qed
  have w3: "Remove 5 (formatted_fs 64) disk_def (''/d/e'' @ CHR ''/'' # ''x'') False = (Ret False, disk_def)"
    by (rule Remove_absent_file [OF _ _ par]) simp_all
  have m1: "FileFinder_find 5 disk_f new_FileFinder ''/nodir'' DIR (directoryFile (formatted_fs 64))
       = Ret \<lparr>exist = False, pFhSector = 1, fhSector = - 1, filename = ''nodir''\<rparr>"
    by code_simp
  have w4: "Remove 5 (formatted_fs 64) disk_f (''/nodir'' @ CHR ''/'' # ''f'') False = (Ret False, disk_f)"
    by (rule Remove_absent_file) (simp_all add: m1)
  from r1 w1 c r2 w2 n1 n3 w3 m1 w4 show ?thesis by simp
qed

text \<open>
  Claim C9 as stated fails at the path \<open>"/"\<close>: on a freshly formatted disk no file exists
  there (no directory entry is in use at all), yet \<open>Remove("/", false)\<close> does not return
  false; \<open>find\<close> stops on \<^verbatim>\<open>ASSERT(isDir)\<close>. It also fails at a path without any slash
  (\<open>"x"\<close>, or the empty path): \<open>find\<close> walks no component and reports \<open>exist\<close> with
  \<open>fhSector = -1\<close>, and \<open>Remove\<close> stops on the assertion that this sector is marked.
\<close>

theorem Remove_root_counterexample:
  "filter inUse (root_directory (formatted_fs 64) (formatted_disk 64)) = []
   \<and> fst (Remove 5 (formatted_fs 64) (formatted_disk 64) ''/'' False) = Abort
   \<and> fst (Remove 5 (formatted_fs 64) (formatted_disk 64) ''x'' False) = Abort
   \<and> fst (Remove 5 (formatted_fs 64) (formatted_disk 64) [] False) = Abort"
  by code_simp

section \<open>The order of the writes of one operation\<close>

lemma WriteSector_writes:
  "WriteSector d s buf = (r, d') \<Longrightarrow>
     (r = Ret () \<and> writes d' = writes d @ [SectorWrite s]) \<or> (r = Abort \<and> d' = d)"
  by (auto simp: WriteSector_def split: if_splits)

text \<open>Reading a header depends on the raw sectors only, not on the file contents.\<close>

lemma ReadSector_cong:
  "sectors d2 = sectors d \<Longrightarrow> NumSectors d2 = NumSectors d \<Longrightarrow> ReadSector d2 s = ReadSector d s"
  by (simp add: ReadSector_def)

lemma FetchFrom3_cong:
  "sectors d2 = sectors d \<and> NumSectors d2 = NumSectors d \<longrightarrow>
     FetchFrom3 fuel d2 h s ps = FetchFrom3 fuel d h s ps"
  "sectors d2 = sectors d \<and> NumSectors d2 = NumSectors d \<longrightarrow>
     FetchFrom_loop fuel d2 h i = FetchFrom_loop fuel d h i"
proof (induction fuel d h s ps and fuel d h i rule: FetchFrom3_FetchFrom_loop.induct)
  case (1 d this sectorNumber pSectors)
  show ?case by (simp add: FetchFrom3.simps)
next
  case (2 fuel d nb nds ds m cs sectorNumber pSectors)
  note u = FetchFrom3.simps(2)[of fuel _ nb nds ds m cs sectorNumber pSectors]
  show ?case
  proof
    assume a: "sectors d2 = sectors d \<and> NumSectors d2 = NumSectors d"
    then have rs: "ReadSector d2 sectorNumber = ReadSector d sectorNumber"
      by (intro ReadSector_cong) simp_all
    show "FetchFrom3 (Suc fuel) d2 (FileHeader nb nds ds m cs) sectorNumber pSectors
        = FetchFrom3 (Suc fuel) d (FileHeader nb nds ds m cs) sectorNumber pSectors"
    proof (cases "ReadSector d sectorNumber")
      case (Ret buf)
      show ?thesis
      proof (cases "whichLv (buf ! 0)")
        case r: (Ret lv)
        show ?thesis
        proof (cases "lv = 0")
          case True
          with Ret r rs show ?thesis by (simp add: u)
        next
          case False
          from 2[OF Ret r False] a
          have "FetchFrom_loop fuel d2
                  (FileHeader (buf ! 0) (buf ! 1) (take (nat NUM_DIRECT) (drop 2 buf)) m cs) 0
              = FetchFrom_loop fuel d
                  (FileHeader (buf ! 0) (buf ! 1) (take (nat NUM_DIRECT) (drop 2 buf)) m cs) 0"
            by simp
          with Ret r rs False show ?thesis by (simp add: u)
        qed
      next
        case Abort
        with Ret rs show ?thesis by (simp add: u)
      next
        case OutOfFuel
        with Ret rs show ?thesis by (simp add: u)
      qed
    next
      case Abort
      with rs show ?thesis by (simp add: u)
    next
      case OutOfFuel
      with rs show ?thesis by (simp add: u)
    qed
  qed
next
  case (3 fuel d nb nds ds m cs i)
  note u = FetchFrom_loop.simps[of fuel _ nb nds ds m cs i]
  show ?case
  proof
    assume a: "sectors d2 = sectors d \<and> NumSectors d2 = NumSectors d"
    show "FetchFrom_loop fuel d2 (FileHeader nb nds ds m cs) i
        = FetchFrom_loop fuel d (FileHeader nb nds ds m cs) i"
    proof (cases "i < nat NUM_DIRECT \<and> ds ! i \<noteq> INVALID_SECTOR")
      case False
      show ?thesis by (simp only: u False if_False)
    next
      case True
      from 3(1)[OF True] a
      have e: "FetchFrom3 fuel d2 new_FileHeader (ds ! i) (Some m)
          = FetchFrom3 fuel d new_FileHeader (ds ! i) (Some m)" by simp
      show ?thesis
      proof (cases "FetchFrom3 fuel d new_FileHeader (ds ! i) (Some m)")
        case (Ret x)
        obtain child m' where x: "x = (child, m')" by (cases x)
        from 3(2)[OF True Ret x[symmetric]] a
        have r: "FetchFrom_loop fuel d2 (FileHeader nb nds ds m' (set_child cs i child)) (i + 1)
            = FetchFrom_loop fuel d (FileHeader nb nds ds m' (set_child cs i child)) (i + 1)"
          by simp
        show ?thesis
          by (simp only: u True if_True e Ret x result.case prod.case r)
      next
        case Abort
        show ?thesis by (simp only: u True if_True e Abort result.case)
      next
        case OutOfFuel
        show ?thesis by (simp only: u True if_True e OutOfFuel result.case)
      qed
    qed
  qed
qed

lemma new_OpenFile_cong:
  "sectors d2 = sectors d \<Longrightarrow> NumSectors d2 = NumSectors d \<Longrightarrow>
     new_OpenFile fuel d2 s = new_OpenFile fuel d s"
  using FetchFrom3_cong(1)[of d2 d fuel new_FileHeader s None]
  by (simp add: new_OpenFile_def FetchFrom_def)

lemma WriteBack_writes_aux:
  "(\<forall>r d'. WriteBack h s d = (r, d') \<longrightarrow>
      (\<exists>ss. writes d' = writes d @ map SectorWrite ss \<and> (r = Ret () \<longrightarrow> ss \<noteq> [] \<and> hd ss = s)))"
  "(\<forall>r d'. WriteBack_loop h i d = (r, d') \<longrightarrow>
      (\<exists>ss. writes d' = writes d @ map SectorWrite ss))"
proof (induction h s d and h i d rule: WriteBack_WriteBack_loop.induct)
  case (1 this sectorNumber d)
  show ?case
  proof (intro allI impI)
    fix r d' assume w: "WriteBack this sectorNumber d = (r, d')"
    obtain r1 d1 where ws: "WriteSector d sectorNumber
        ([numBytes this, numDataSectors this] @ dataSectors this) = (r1, d1)"
      by (cases "WriteSector d sectorNumber ([numBytes this, numDataSectors this] @ dataSectors this)")
    from WriteSector_writes[OF ws] consider
      (ok) "r1 = Ret ()" "writes d1 = writes d @ [SectorWrite sectorNumber]" | (ab) "r1 = Abort" "d1 = d"
      by blast
    then show "\<exists>ss. writes d' = writes d @ map SectorWrite ss
        \<and> (r = Ret () \<longrightarrow> ss \<noteq> [] \<and> hd ss = sectorNumber)"
    proof cases
      case ab
      with w ws have "r = Abort" "d' = d" by (simp_all add: WriteBack.simps)
      then show ?thesis by (intro exI[of _ "[]"]) simp
    next
      case ok
      show ?thesis
      proof (cases "whichLv (numBytes this)")
        case (Ret lv)
        show ?thesis
        proof (cases "lv = 0")
          case True
          with w ws ok Ret have "d' = d1" by (simp add: WriteBack.simps)
          with ok show ?thesis by (intro exI[of _ "[sectorNumber]"]) simp
        next
          case False
          with w ws ok Ret have l: "WriteBack_loop this 0 d1 = (r, d')" by (simp add: WriteBack.simps)
          from 1[OF ws[symmetric] ok(1) Ret False] l
          obtain ss where "writes d' = writes d1 @ map SectorWrite ss" by auto
          with ok show ?thesis by (intro exI[of _ "sectorNumber # ss"]) simp
        qed
      next
        case Abort
        with w ws ok have "d' = d1" by (simp add: WriteBack.simps)
        with ok show ?thesis by (intro exI[of _ "[sectorNumber]"]) simp
      next
        case OutOfFuel
        with w ws ok have "d' = d1" by (simp add: WriteBack.simps)
        with ok show ?thesis by (intro exI[of _ "[sectorNumber]"]) simp
      qed
    qed
  qed
next
  case (2 this i d)
  show ?case
  proof (intro allI impI)
    fix r d' assume w: "WriteBack_loop this i d = (r, d')"
    show "\<exists>ss. writes d' = writes d @ map SectorWrite ss"
    proof (cases "i < nat NUM_DIRECT \<and> dataSectors this ! i \<noteq> INVALID_SECTOR")
      case False
      with w have "d' = d" by (auto simp: WriteBack_loop.simps)
      then show ?thesis by (intro exI[of _ "[]"]) simp
    next
      case c: True
      show ?thesis
      proof (cases "i < length (children this)")
        case False
        with w c have "d' = d" by (auto simp: WriteBack_loop.simps)
        then show ?thesis by (intro exI[of _ "[]"]) simp
      next
        case True
        obtain r1 d1 where wb: "WriteBack (children this ! i) (dataSectors this ! i) d = (r1, d1)"
          by (cases "WriteBack (children this ! i) (dataSectors this ! i) d")
        from 2(1)[OF c True] wb obtain ss1 where s1: "writes d1 = writes d @ map SectorWrite ss1"
          by blast
        show ?thesis
        proof (cases r1)
          case (Ret u)
          with w c True wb have l: "WriteBack_loop this (i + 1) d1 = (r, d')"
            by (simp add: WriteBack_loop.simps)
          from 2(2)[OF c True wb[symmetric] Ret] l
          obtain ss2 where "writes d' = writes d1 @ map SectorWrite ss2" by auto
          with s1 show ?thesis by (intro exI[of _ "ss1 @ ss2"]) simp
        next
          case Abort
          with w c True wb have "d' = d1" by (simp add: WriteBack_loop.simps)
          with s1 show ?thesis by blast
        next
          case OutOfFuel
          with w c True wb have "d' = d1" by (simp add: WriteBack_loop.simps)
          with s1 show ?thesis by blast
        qed
      qed
    qed
  qed
qed

lemma WriteBack_writes:
  "WriteBack h s d = (Ret u, d') \<Longrightarrow> \<exists>ss. writes d' = writes d @ map SectorWrite (s # ss)"
proof -
  assume "WriteBack h s d = (Ret u, d')"
  with WriteBack_writes_aux(1)[of h s d] obtain ss where
    "writes d' = writes d @ map SectorWrite ss" "ss \<noteq> []" "hd ss = s" by auto
  then show ?thesis by (cases ss) auto
qed


lemma createFileOrDir_writes:
  assumes "createFileOrDir fuel fs d p isDir' n = (Ret True, d')"
  shows "\<exists>finder openPfh ss.
      FileFinder_find fuel d new_FileFinder p isDir' (directoryFile fs) = Ret finder
    \<and> \<not> exist finder
    \<and> new_OpenFile fuel d (pFhSector finder) = Ret openPfh
    \<and> (if isDir'
       then (\<exists>openFh.
              new_OpenFile fuel d' (fst (FindAndSet (persisted_bitmap fs d))) = Ret openFh
            \<and> writes d' = writes d
                @ map SectorWrite (fst (FindAndSet (persisted_bitmap fs d)) # ss)
                @ [DirectoryWrite (dataSectorMapping (hdr openPfh)),
                   BitmapWrite (dataSectorMapping (hdr (freeMapFile fs))),
                   DirectoryWrite (dataSectorMapping (hdr openFh))])
       else writes d' = writes d
                @ map SectorWrite (fst (FindAndSet (persisted_bitmap fs d)) # ss)
                @ [DirectoryWrite (dataSectorMapping (hdr openPfh)),
                   BitmapWrite (dataSectorMapping (hdr (freeMapFile fs)))])"
proof -
  from assms obtain finder where
    fi: "FileFinder_find fuel d new_FileFinder p isDir' (directoryFile fs) = Ret finder"
    by (auto simp: createFileOrDir_def split: result.splits)
  from assms fi have nex: "\<not> exist finder"
    by (auto simp: createFileOrDir_def split: if_splits)
  obtain sec freeMap where
    fs: "FindAndSet (PersistentBitmap_from d (freeMapFile fs) (NumSectors d)) = (sec, freeMap)"
    by (cases "FindAndSet (PersistentBitmap_from d (freeMapFile fs) (NumSectors d))")
  then have sec: "fst (FindAndSet (persisted_bitmap fs d)) = sec" by (simp add: persisted_bitmap_def)
  from assms fi fs obtain openPfh where
    op: "new_OpenFile fuel d (pFhSector finder) = Ret openPfh"
    by (auto simp: createFileOrDir_def split: result.splits if_splits)
  obtain added pDir where
    ad: "Directory_Add (Directory_FetchFrom (new_Directory NumDirEntries) d openPfh)
           (filename finder) sec isDir' = (added, pDir)"
    by (cases "Directory_Add (Directory_FetchFrom (new_Directory NumDirEntries) d openPfh)
           (filename finder) sec isDir'")
  define size' where "size' = (if isDir' then int NumDirEntries * sizeof_DirectoryEntry else n)"
  from assms fi fs op ad obtain ok fh freeMap' where
    al: "Allocate new_FileHeader freeMap size' = Ret (ok, fh, freeMap')"
    by (auto simp: createFileOrDir_def size'_def split: result.splits if_splits)
  from assms fi fs op ad al obtain u d1 where
    wb: "WriteBack fh sec d = (Ret u, d1)"
    by (auto simp: createFileOrDir_def size'_def split: result.splits if_splits prod.splits)
  from WriteBack_writes[OF wb] obtain ss where
    ss: "writes d1 = writes d @ map SectorWrite (sec # ss)" by blast
  define d3 where "d3 = Bitmap_WriteBack freeMap' (Directory_WriteBack pDir d1 openPfh) (freeMapFile fs)"
  have w3: "writes d3 = writes d @ map SectorWrite (sec # ss) @
      [DirectoryWrite (dataSectorMapping (hdr openPfh)),
       BitmapWrite (dataSectorMapping (hdr (freeMapFile fs)))]"
    by (simp add: d3_def Bitmap_WriteBack_def Directory_WriteBack_def ss)
  show ?thesis
  proof (cases isDir')
    case False
    with assms fi fs op ad al wb have "d' = d3"
      by (auto simp: createFileOrDir_def size'_def d3_def split: if_splits)
    with w3 sec have "writes d' = writes d
                @ map SectorWrite (fst (FindAndSet (persisted_bitmap fs d)) # ss)
                @ [DirectoryWrite (dataSectorMapping (hdr openPfh)),
                   BitmapWrite (dataSectorMapping (hdr (freeMapFile fs)))]"
      by (simp only:)
    with False fi nex op show ?thesis
      by (intro exI[of _ finder] exI[of _ openPfh] exI[of _ ss]) (simp only: if_False simp_thms)
  next
    case True
    with assms fi fs op ad al wb obtain openFh where
      o: "new_OpenFile fuel d3 sec = Ret openFh"
      and e: "d' = Directory_WriteBack (new_Directory NumDirEntries) d3 openFh"
      by (auto simp: createFileOrDir_def size'_def d3_def split: if_splits result.splits)
    from e have w: "writes d' = writes d3 @ [DirectoryWrite (dataSectorMapping (hdr openFh))]"
      by (simp add: Directory_WriteBack_def)
    from e have "sectors d' = sectors d3" "NumSectors d' = NumSectors d3"
      by (simp_all add: Directory_WriteBack_def)
    from new_OpenFile_cong[OF this] o have o': "new_OpenFile fuel d' sec = Ret openFh" by simp
    from w w3 sec have "writes d' = writes d
                @ map SectorWrite (fst (FindAndSet (persisted_bitmap fs d)) # ss)
                @ [DirectoryWrite (dataSectorMapping (hdr openPfh)),
                   BitmapWrite (dataSectorMapping (hdr (freeMapFile fs))),
                   DirectoryWrite (dataSectorMapping (hdr openFh))]"
      by simp
    moreover from o' sec have
      "new_OpenFile fuel d' (fst (FindAndSet (persisted_bitmap fs d))) = Ret openFh"
      by (simp only:)
    ultimately have "\<exists>openFh.
              new_OpenFile fuel d' (fst (FindAndSet (persisted_bitmap fs d))) = Ret openFh
            \<and> writes d' = writes d
                @ map SectorWrite (fst (FindAndSet (persisted_bitmap fs d)) # ss)
                @ [DirectoryWrite (dataSectorMapping (hdr openPfh)),
                   BitmapWrite (dataSectorMapping (hdr (freeMapFile fs))),
                   DirectoryWrite (dataSectorMapping (hdr openFh))]"
      by (intro exI[of _ openFh] conjI)
    with True fi nex op show ?thesis
      by (intro exI[of _ finder] exI[of _ openPfh] exI[of _ ss]) (simp only: if_True simp_thms)
  qed
qed

lemma Remove_single_writes:
  assumes "Remove_single fuel fs d p = (Ret True, d')"
  shows "\<exists>finder openPfh.
      FileFinder_find fuel d new_FileFinder p FILE (directoryFile fs) = Ret finder
    \<and> exist finder
    \<and> new_OpenFile fuel d (pFhSector finder) = Ret openPfh
    \<and> writes d' = writes d @
        [BitmapWrite (dataSectorMapping (hdr (freeMapFile fs))),
         DirectoryWrite (dataSectorMapping (hdr openPfh))]"
proof -
  from assms obtain finder where
    fi: "FileFinder_find fuel d new_FileFinder p FILE (directoryFile fs) = Ret finder"
    by (auto simp: Remove_single_def split: result.splits)
  from assms fi have ex: "exist finder"
    by (auto simp: Remove_single_def split: if_splits)
  from assms fi ex obtain freeMap where
    rt: "returnSectorsToFreeMap fuel d (fhSector finder)
           (PersistentBitmap_from d (freeMapFile fs) (NumSectors d)) = Ret freeMap"
    by (auto simp: Remove_single_def split: result.splits)
  from assms fi ex rt obtain openPfh where
    op: "new_OpenFile fuel d (pFhSector finder) = Ret openPfh"
    by (auto simp: Remove_single_def split: result.splits)
  obtain removed pDir where
    rm: "Directory_Remove (Directory_FetchFrom (new_Directory NumDirEntries) d openPfh)
           (filename finder) FILE = (removed, pDir)"
    by (cases "Directory_Remove (Directory_FetchFrom (new_Directory NumDirEntries) d openPfh)
           (filename finder) FILE")
  from assms fi ex rt op rm have
    "d' = Directory_WriteBack pDir (Bitmap_WriteBack freeMap d (freeMapFile fs)) openPfh"
    by (auto simp: Remove_single_def split: if_splits)
  then have "writes d' = writes d @
        [BitmapWrite (dataSectorMapping (hdr (freeMapFile fs))),
         DirectoryWrite (dataSectorMapping (hdr openPfh))]"
    by (simp add: Bitmap_WriteBack_def Directory_WriteBack_def)
  with fi ex op show ?thesis
    by (intro exI[of _ finder] exI[of _ openPfh]) (simp only: simp_thms)
qed

lemma recursivelyRemove_writes:
  assumes "recursivelyRemove fuel fs d p = (Ret True, d')"
  shows "\<exists>finder.
      FileFinder_find fuel d new_FileFinder p DIR (directoryFile fs) = Ret finder
    \<and> (if exist finder
       then (\<exists>openfh.
              new_OpenFile fuel d (fhSector finder) = Ret openfh
            \<and> writes d' = writes d @
                [DirectoryWrite (dataSectorMapping (hdr openfh)),
                 BitmapWrite (dataSectorMapping (hdr (freeMapFile fs)))])
       else (\<exists>finder2 openPfh.
              FileFinder_find fuel d new_FileFinder p FILE (directoryFile fs) = Ret finder2
            \<and> exist finder2
            \<and> new_OpenFile fuel d (pFhSector finder2) = Ret openPfh
            \<and> writes d' = writes d @
                [BitmapWrite (dataSectorMapping (hdr (freeMapFile fs))),
                 DirectoryWrite (dataSectorMapping (hdr openPfh))]))"
proof -
  from assms obtain finder where
    fi: "FileFinder_find fuel d new_FileFinder p DIR (directoryFile fs) = Ret finder"
    by (auto simp: recursivelyRemove_def split: result.splits)
  show ?thesis
  proof (cases "exist finder")
    case False
    with assms fi have "Remove_single fuel fs d p = (Ret True, d')"
      by (simp add: recursivelyRemove_def)
    from Remove_single_writes[OF this] fi False show ?thesis
      by (intro exI[of _ finder]) (simp only: if_False simp_thms)
  next
    case True
    with assms fi obtain openfh where
      op: "new_OpenFile fuel d (fhSector finder) = Ret openfh"
      by (auto simp: recursivelyRemove_def split: result.splits)
    from assms fi True op obtain ok dir freeMap where
      ra: "RemoveAll fuel d (Directory_FetchFrom (new_Directory NumDirEntries) d openfh)
             (PersistentBitmap_from d (freeMapFile fs) (NumSectors d)) = Ret (ok, dir, freeMap)"
      by (auto simp: recursivelyRemove_def split: result.splits)
    from assms fi True op ra have
      "d' = Bitmap_WriteBack freeMap (Directory_WriteBack dir d openfh) (freeMapFile fs)"
      by (auto simp: recursivelyRemove_def split: if_splits)
    then have "writes d' = writes d @
                [DirectoryWrite (dataSectorMapping (hdr openfh)),
                 BitmapWrite (dataSectorMapping (hdr (freeMapFile fs)))]"
      by (simp add: Bitmap_WriteBack_def Directory_WriteBack_def)
    with op have "\<exists>openfh.
              new_OpenFile fuel d (fhSector finder) = Ret openfh
            \<and> writes d' = writes d @
                [DirectoryWrite (dataSectorMapping (hdr openfh)),
                 BitmapWrite (dataSectorMapping (hdr (freeMapFile fs)))]"
      by (intro exI[of _ openfh] conjI)
    with fi True show ?thesis
      by (intro exI[of _ finder]) (simp only: if_True simp_thms)
  qed
qed

text \<open>
  Claim C7, as amended. A successful \<open>Create\<close> writes the header sectors of the new
  file, the first of them the sector it took from the bitmap, then the table of the parent
  directory (the directory at \<open>pFhSector\<close> of the resolution), then the free bitmap,
  which is its last write. A successful \<open>Mkdir\<close> makes the same writes and then writes
  the table of the new directory (the file whose header it has just written), after the
  bitmap. A successful non-recursive \<open>Remove\<close> writes the bitmap first and the table of
  the parent directory last. A successful recursive \<open>Remove\<close> of a path that resolves
  as a directory writes the table of that directory and then the bitmap; of a path that
  does not, it writes what the non-recursive \<open>Remove\<close> writes.
\<close>

theorem write_order:
  "(Create fuel fs d p n = (Ret True, d') \<longrightarrow>
      (\<exists>finder openPfh ss.
          FileFinder_find fuel d new_FileFinder p FILE (directoryFile fs) = Ret finder
        \<and> new_OpenFile fuel d (pFhSector finder) = Ret openPfh
        \<and> writes d' = writes d
            @ map SectorWrite (fst (FindAndSet (persisted_bitmap fs d)) # ss)
            @ [DirectoryWrite (dataSectorMapping (hdr openPfh)),
               BitmapWrite (dataSectorMapping (hdr (freeMapFile fs)))]))
   \<and> (Mkdir fuel fs d p = (Ret True, d') \<longrightarrow>
      (\<exists>finder openPfh openFh ss.
          FileFinder_find fuel d new_FileFinder p DIR (directoryFile fs) = Ret finder
        \<and> new_OpenFile fuel d (pFhSector finder) = Ret openPfh
        \<and> new_OpenFile fuel d' (fst (FindAndSet (persisted_bitmap fs d))) = Ret openFh
        \<and> writes d' = writes d
            @ map SectorWrite (fst (FindAndSet (persisted_bitmap fs d)) # ss)
            @ [DirectoryWrite (dataSectorMapping (hdr openPfh)),
               BitmapWrite (dataSectorMapping (hdr (freeMapFile fs))),
               DirectoryWrite (dataSectorMapping (hdr openFh))]))
   \<and> (Remove fuel fs d p False = (Ret True, d') \<longrightarrow>
      (\<exists>finder openPfh.
          FileFinder_find fuel d new_FileFinder p FILE (directoryFile fs) = Ret finder
        \<and> new_OpenFile fuel d (pFhSector finder) = Ret openPfh
        \<and> writes d' = writes d
            @ [BitmapWrite (dataSectorMapping (hdr (freeMapFile fs))),
               DirectoryWrite (dataSectorMapping (hdr openPfh))]))
   \<and> (Remove fuel fs d p True = (Ret True, d') \<longrightarrow>
      (\<exists>finder.
          FileFinder_find fuel d new_FileFinder p DIR (directoryFile fs) = Ret finder
        \<and> (if exist finder
           then (\<exists>openfh.
                  new_OpenFile fuel d (fhSector finder) = Ret openfh
                \<and> writes d' = writes d
                    @ [DirectoryWrite (dataSectorMapping (hdr openfh)),
                       BitmapWrite (dataSectorMapping (hdr (freeMapFile fs)))])
           else (\<exists>finder2 openPfh.
                  FileFinder_find fuel d new_FileFinder p FILE (directoryFile fs) = Ret finder2
                \<and> exist finder2
                \<and> new_OpenFile fuel d (pFhSector finder2) = Ret openPfh
                \<and> writes d' = writes d
                    @ [BitmapWrite (dataSectorMapping (hdr (freeMapFile fs))),
                       DirectoryWrite (dataSectorMapping (hdr openPfh))]))))"
proof (intro conjI impI)
  assume "Create fuel fs d p n = (Ret True, d')"
  then have "createFileOrDir fuel fs d p FILE n = (Ret True, d')" by (simp add: Create_def)
  from createFileOrDir_writes[OF this] obtain finder openPfh ss where
    "FileFinder_find fuel d new_FileFinder p FILE (directoryFile fs) = Ret finder"
    "new_OpenFile fuel d (pFhSector finder) = Ret openPfh"
    "writes d' = writes d
            @ map SectorWrite (fst (FindAndSet (persisted_bitmap fs d)) # ss)
            @ [DirectoryWrite (dataSectorMapping (hdr openPfh)),
               BitmapWrite (dataSectorMapping (hdr (freeMapFile fs)))]"
    by (auto simp: FILE_def)
  then show "\<exists>finder openPfh ss.
          FileFinder_find fuel d new_FileFinder p FILE (directoryFile fs) = Ret finder
        \<and> new_OpenFile fuel d (pFhSector finder) = Ret openPfh
        \<and> writes d' = writes d
            @ map SectorWrite (fst (FindAndSet (persisted_bitmap fs d)) # ss)
            @ [DirectoryWrite (dataSectorMapping (hdr openPfh)),
               BitmapWrite (dataSectorMapping (hdr (freeMapFile fs)))]"
    by (intro exI[of _ finder] exI[of _ openPfh] exI[of _ ss] conjI)
next
  assume "Mkdir fuel fs d p = (Ret True, d')"
  then have "createFileOrDir fuel fs d p DIR (- 1) = (Ret True, d')" by (simp add: Mkdir_def)
  from createFileOrDir_writes[OF this] obtain finder openPfh ss openFh where
    "FileFinder_find fuel d new_FileFinder p DIR (directoryFile fs) = Ret finder"
    "new_OpenFile fuel d (pFhSector finder) = Ret openPfh"
    "new_OpenFile fuel d' (fst (FindAndSet (persisted_bitmap fs d))) = Ret openFh"
    "writes d' = writes d
            @ map SectorWrite (fst (FindAndSet (persisted_bitmap fs d)) # ss)
            @ [DirectoryWrite (dataSectorMapping (hdr openPfh)),
               BitmapWrite (dataSectorMapping (hdr (freeMapFile fs))),
               DirectoryWrite (dataSectorMapping (hdr openFh))]"
    by (auto simp: DIR_def)
  then show "\<exists>finder openPfh openFh ss.
          FileFinder_find fuel d new_FileFinder p DIR (directoryFile fs) = Ret finder
        \<and> new_OpenFile fuel d (pFhSector finder) = Ret openPfh
        \<and> new_OpenFile fuel d' (fst (FindAndSet (persisted_bitmap fs d))) = Ret openFh
        \<and> writes d' = writes d
            @ map SectorWrite (fst (FindAndSet (persisted_bitmap fs d)) # ss)
            @ [DirectoryWrite (dataSectorMapping (hdr openPfh)),
               BitmapWrite (dataSectorMapping (hdr (freeMapFile fs))),
               DirectoryWrite (dataSectorMapping (hdr openFh))]"
    by (intro exI[of _ finder] exI[of _ openPfh] exI[of _ openFh] exI[of _ ss] conjI)
next
  assume "Remove fuel fs d p False = (Ret True, d')"
  then have "Remove_single fuel fs d p = (Ret True, d')" by (simp add: Remove_def)
  from Remove_single_writes[OF this]
  show "\<exists>finder openPfh.
          FileFinder_find fuel d new_FileFinder p FILE (directoryFile fs) = Ret finder
        \<and> new_OpenFile fuel d (pFhSector finder) = Ret openPfh
        \<and> writes d' = writes d
            @ [BitmapWrite (dataSectorMapping (hdr (freeMapFile fs))),
               DirectoryWrite (dataSectorMapping (hdr openPfh))]"
    by blast
next
  assume "Remove fuel fs d p True = (Ret True, d')"
  then have "recursivelyRemove fuel fs d p = (Ret True, d')" by (simp add: Remove_def)
  from recursivelyRemove_writes[OF this]
  show "\<exists>finder.
          FileFinder_find fuel d new_FileFinder p DIR (directoryFile fs) = Ret finder
        \<and> (if exist finder
           then (\<exists>openfh.
                  new_OpenFile fuel d (fhSector finder) = Ret openfh
                \<and> writes d' = writes d
                    @ [DirectoryWrite (dataSectorMapping (hdr openfh)),
                       BitmapWrite (dataSectorMapping (hdr (freeMapFile fs)))])
           else (\<exists>finder2 openPfh.
                  FileFinder_find fuel d new_FileFinder p FILE (directoryFile fs) = Ret finder2
                \<and> exist finder2
                \<and> new_OpenFile fuel d (pFhSector finder2) = Ret openPfh
                \<and> writes d' = writes d
                    @ [BitmapWrite (dataSectorMapping (hdr (freeMapFile fs))),
                       DirectoryWrite (dataSectorMapping (hdr openPfh))]))" .
qed

theorem write_order_witness:
  "Create 5 (formatted_fs 64) (formatted_disk 64) ''/f'' 1 = (Ret True, disk_f)
   \<and> (\<exists>ss. writes disk_f = writes (formatted_disk 64) @ map SectorWrite (13 # ss)
          @ [DirectoryWrite (map int [3..<13]), BitmapWrite [2]])
   \<and> Mkdir 5 (formatted_fs 64) (formatted_disk 64) ''/a'' = (Ret True, disk_a)
   \<and> (\<exists>ss. writes disk_a = writes (formatted_disk 64) @ map SectorWrite (13 # ss)
          @ [DirectoryWrite (map int [3..<13]), BitmapWrite [2],
             DirectoryWrite (map int [14..<24])])
   \<and> Remove 5 (formatted_fs 64) disk_f ''/f'' False = (Ret True, disk_f_removed)
   \<and> writes disk_f_removed = writes disk_f
          @ [BitmapWrite [2], DirectoryWrite (map int [3..<13])]
   \<and> Remove 5 (formatted_fs 64) disk_def ''/d'' True = (Ret True, disk_def_removed)
   \<and> writes disk_def_removed = writes disk_def
          @ [DirectoryWrite (map int [14..<24]), BitmapWrite [2]]
   \<and> fst (Remove 5 (formatted_fs 64) disk_f ''/f'' True) = Ret True
   \<and> writes (snd (Remove 5 (formatted_fs 64) disk_f ''/f'' True)) = writes disk_f
          @ [BitmapWrite [2], DirectoryWrite (map int [3..<13])]"
proof -
  define root where "root = \<lparr>hdr = FileHeader 1280 10 (map int [3..<13] @ replicate 20 (- 1))
      (map int [3..<13]) [], seekPosition = 0\<rparr>"
  define sub where "sub = \<lparr>hdr = FileHeader 1280 10 (map int [14..<24] @ replicate 20 (- 1))
      (map int [14..<24]) [], seekPosition = 0\<rparr>"
  have rk: "dataSectorMapping (hdr root) = map int [3..<13]" by (simp add: root_def)
  have sk: "dataSectorMapping (hdr sub) = map int [14..<24]" by (simp add: sub_def)
  have mk: "dataSectorMapping (hdr (freeMapFile (formatted_fs 64))) = [2]"
    by (simp add: formatted_fs_def)
  have fas: "fst (FindAndSet (persisted_bitmap (formatted_fs 64) (formatted_disk 64))) = 13"
    by code_simp

  have "fst (Create 5 (formatted_fs 64) (formatted_disk 64) ''/f'' 1) = Ret True" by code_simp
  then have a: "Create 5 (formatted_fs 64) (formatted_disk 64) ''/f'' 1 = (Ret True, disk_f)"
    by (simp add: disk_f_def prod_eq_iff)
  have a1: "FileFinder_find 5 (formatted_disk 64) new_FileFinder ''/f'' FILE
      (directoryFile (formatted_fs 64))
      = Ret \<lparr>exist = False, pFhSector = 1, fhSector = - 1, filename = ''f''\<rparr>"
    by code_simp
  have a2: "new_OpenFile 5 (formatted_disk 64) 1 = Ret root" unfolding root_def by code_simp
  from write_order [of 5 "formatted_fs 64" "formatted_disk 64" "''/f''" 1 disk_f] a
  obtain finder openPfh ss where
    f: "FileFinder_find 5 (formatted_disk 64) new_FileFinder ''/f'' FILE
       (directoryFile (formatted_fs 64)) = Ret finder"
    and o: "new_OpenFile 5 (formatted_disk 64) (pFhSector finder) = Ret openPfh"
    and w: "writes disk_f = writes (formatted_disk 64)
        @ map SectorWrite (fst (FindAndSet (persisted_bitmap (formatted_fs 64) (formatted_disk 64))) # ss)
        @ [DirectoryWrite (dataSectorMapping (hdr openPfh)),
           BitmapWrite (dataSectorMapping (hdr (freeMapFile (formatted_fs 64))))]"
    by blast
  from f a1 have "pFhSector finder = 1" by auto
  with o a2 have "openPfh = root" by simp
  with w have "writes disk_f = writes (formatted_disk 64) @ map SectorWrite (13 # ss)
          @ [DirectoryWrite (map int [3..<13]), BitmapWrite [2]]"
    by (simp only: rk mk fas)
  then have a': "\<exists>ss. writes disk_f = writes (formatted_disk 64) @ map SectorWrite (13 # ss)
          @ [DirectoryWrite (map int [3..<13]), BitmapWrite [2]]"
    by (rule exI)

  have "fst (Mkdir 5 (formatted_fs 64) (formatted_disk 64) ''/a'') = Ret True" by code_simp
  then have b: "Mkdir 5 (formatted_fs 64) (formatted_disk 64) ''/a'' = (Ret True, disk_a)"
    by (simp add: disk_a_def prod_eq_iff)
  have b1: "FileFinder_find 5 (formatted_disk 64) new_FileFinder ''/a'' DIR
      (directoryFile (formatted_fs 64))
      = Ret \<lparr>exist = False, pFhSector = 1, fhSector = - 1, filename = ''a''\<rparr>"
    by code_simp
  have b2: "new_OpenFile 5 disk_a 13 = Ret sub" unfolding sub_def by code_simp
  from write_order [of 5 "formatted_fs 64" "formatted_disk 64" "''/a''" 1 disk_a] b
  obtain finder openPfh openFh ss where
    f: "FileFinder_find 5 (formatted_disk 64) new_FileFinder ''/a'' DIR
       (directoryFile (formatted_fs 64)) = Ret finder"
    and o: "new_OpenFile 5 (formatted_disk 64) (pFhSector finder) = Ret openPfh"
    and n: "new_OpenFile 5 disk_a (fst (FindAndSet (persisted_bitmap (formatted_fs 64) (formatted_disk 64))))
       = Ret openFh"
    and w: "writes disk_a = writes (formatted_disk 64)
        @ map SectorWrite (fst (FindAndSet (persisted_bitmap (formatted_fs 64) (formatted_disk 64))) # ss)
        @ [DirectoryWrite (dataSectorMapping (hdr openPfh)),
           BitmapWrite (dataSectorMapping (hdr (freeMapFile (formatted_fs 64)))),
           DirectoryWrite (dataSectorMapping (hdr openFh))]"
    by blast
  from f b1 have "pFhSector finder = 1" by auto
  with o a2 have "openPfh = root" by simp
  moreover from n b2 have "openFh = sub" by (simp add: fas)
  ultimately have "writes disk_a = writes (formatted_disk 64) @ map SectorWrite (13 # ss)
          @ [DirectoryWrite (map int [3..<13]), BitmapWrite [2],
             DirectoryWrite (map int [14..<24])]"
    using w by (simp only: rk sk mk fas)
  then have b': "\<exists>ss. writes disk_a = writes (formatted_disk 64) @ map SectorWrite (13 # ss)
          @ [DirectoryWrite (map int [3..<13]), BitmapWrite [2],
             DirectoryWrite (map int [14..<24])]"
    by (rule exI)

  have "fst (Remove 5 (formatted_fs 64) disk_f ''/f'' False) = Ret True" by code_simp
  then have c: "Remove 5 (formatted_fs 64) disk_f ''/f'' False = (Ret True, disk_f_removed)"
    by (simp add: disk_f_removed_def prod_eq_iff)
  have c1: "FileFinder_find 5 disk_f new_FileFinder ''/f'' FILE (directoryFile (formatted_fs 64))
      = Ret \<lparr>exist = True, pFhSector = 1, fhSector = 13, filename = ''f''\<rparr>"
    by code_simp
  have c2: "new_OpenFile 5 disk_f 1 = Ret root" unfolding root_def by code_simp
  from write_order [of 5 "formatted_fs 64" disk_f "''/f''" 1 disk_f_removed] c
  obtain finder openPfh where
    f: "FileFinder_find 5 disk_f new_FileFinder ''/f'' FILE (directoryFile (formatted_fs 64)) = Ret finder"
    and o: "new_OpenFile 5 disk_f (pFhSector finder) = Ret openPfh"
    and w: "writes disk_f_removed = writes disk_f
        @ [BitmapWrite (dataSectorMapping (hdr (freeMapFile (formatted_fs 64)))),
           DirectoryWrite (dataSectorMapping (hdr openPfh))]"
    by blast
  from f c1 have "pFhSector finder = 1" by auto
  with o c2 have "openPfh = root" by simp
  with w have c': "writes disk_f_removed = writes disk_f
          @ [BitmapWrite [2], DirectoryWrite (map int [3..<13])]"
    by (simp only: rk mk)

  have "fst (Remove 5 (formatted_fs 64) disk_def ''/d'' True) = Ret True" by code_simp
  then have e: "Remove 5 (formatted_fs 64) disk_def ''/d'' True = (Ret True, disk_def_removed)"
    by (simp add: disk_def_removed_def prod_eq_iff)
  have e1: "FileFinder_find 5 disk_def new_FileFinder ''/d'' DIR (directoryFile (formatted_fs 64))
      = Ret \<lparr>exist = True, pFhSector = 1, fhSector = 13, filename = ''d''\<rparr>"
    by code_simp
  have e2: "new_OpenFile 5 disk_def 13 = Ret sub" unfolding sub_def by code_simp
  from write_order [of 5 "formatted_fs 64" disk_def "''/d''" 1 disk_def_removed] e
  obtain finder where
    f: "FileFinder_find 5 disk_def new_FileFinder ''/d'' DIR (directoryFile (formatted_fs 64)) = Ret finder"
    and w: "if exist finder
     then (\<exists>openfh.
            new_OpenFile 5 disk_def (fhSector finder) = Ret openfh
          \<and> writes disk_def_removed = writes disk_def
              @ [DirectoryWrite (dataSectorMapping (hdr openfh)),
                 BitmapWrite (dataSectorMapping (hdr (freeMapFile (formatted_fs 64))))])
     else (\<exists>finder2 openPfh.
            FileFinder_find 5 disk_def new_FileFinder ''/d'' FILE (directoryFile (formatted_fs 64))
              = Ret finder2
          \<and> exist finder2
          \<and> new_OpenFile 5 disk_def (pFhSector finder2) = Ret openPfh
          \<and> writes disk_def_removed = writes disk_def
              @ [BitmapWrite (dataSectorMapping (hdr (freeMapFile (formatted_fs 64)))),
                 DirectoryWrite (dataSectorMapping (hdr openPfh))])"
    by blast
  from f e1 have fe: "exist finder" "fhSector finder = 13" by auto
  with w obtain openfh where
    o: "new_OpenFile 5 disk_def 13 = Ret openfh"
    and w2: "writes disk_def_removed = writes disk_def
              @ [DirectoryWrite (dataSectorMapping (hdr openfh)),
                 BitmapWrite (dataSectorMapping (hdr (freeMapFile (formatted_fs 64))))]"
    by auto
  from o e2 have "openfh = sub" by simp
  with w2 have e': "writes disk_def_removed = writes disk_def
          @ [DirectoryWrite (map int [14..<24]), BitmapWrite [2]]"
    by (simp only: sk mk)

  define dr where "dr = snd (Remove 5 (formatted_fs 64) disk_f ''/f'' True)"
  have g0: "fst (Remove 5 (formatted_fs 64) disk_f ''/f'' True) = Ret True" by code_simp
  then have g: "Remove 5 (formatted_fs 64) disk_f ''/f'' True = (Ret True, dr)"
    by (simp add: dr_def prod_eq_iff)
  have g1: "FileFinder_find 5 disk_f new_FileFinder ''/f'' DIR (directoryFile (formatted_fs 64))
      = Ret \<lparr>exist = False, pFhSector = 1, fhSector = - 1, filename = ''f''\<rparr>"
    by code_simp
  from write_order [of 5 "formatted_fs 64" disk_f "''/f''" 1 dr] g
  obtain finder where
    f: "FileFinder_find 5 disk_f new_FileFinder ''/f'' DIR (directoryFile (formatted_fs 64)) = Ret finder"
    and w: "if exist finder
     then (\<exists>openfh.
            new_OpenFile 5 disk_f (fhSector finder) = Ret openfh
          \<and> writes dr = writes disk_f
              @ [DirectoryWrite (dataSectorMapping (hdr openfh)),
                 BitmapWrite (dataSectorMapping (hdr (freeMapFile (formatted_fs 64))))])
     else (\<exists>finder2 openPfh.
            FileFinder_find 5 disk_f new_FileFinder ''/f'' FILE (directoryFile (formatted_fs 64))
              = Ret finder2
          \<and> exist finder2
          \<and> new_OpenFile 5 disk_f (pFhSector finder2) = Ret openPfh
          \<and> writes dr = writes disk_f
              @ [BitmapWrite (dataSectorMapping (hdr (freeMapFile (formatted_fs 64)))),
                 DirectoryWrite (dataSectorMapping (hdr openPfh))])"
    by blast
  from f g1 have "\<not> exist finder" by auto
  with w obtain finder2 openPfh where
    f2: "FileFinder_find 5 disk_f new_FileFinder ''/f'' FILE (directoryFile (formatted_fs 64))
              = Ret finder2"
    and o: "new_OpenFile 5 disk_f (pFhSector finder2) = Ret openPfh"
    and w2: "writes dr = writes disk_f
              @ [BitmapWrite (dataSectorMapping (hdr (freeMapFile (formatted_fs 64)))),
                 DirectoryWrite (dataSectorMapping (hdr openPfh))]"
    by auto
  from f2 c1 have "pFhSector finder2 = 1" by auto
  with o c2 have "openPfh = root" by simp
  with w2 have g': "writes dr = writes disk_f @ [BitmapWrite [2], DirectoryWrite (map int [3..<13])]"
    by (simp only: rk mk)

  from a a' b b' c c' e e' g0 g' show ?thesis unfolding dr_def by (intro conjI)
qed

text \<open>
  Claim C7 as stated fails: the last write of a successful non-recursive \<open>Remove\<close> is the
  parent directory (the bitmap is written before it), and the last write of a successful
  \<open>Mkdir\<close> is the table of the new directory.
\<close>

theorem write_order_counterexample:
  "fst (Remove 5 (formatted_fs 64) disk_f ''/f'' False) = Ret True
   \<and> writes disk_f_removed = writes disk_f @ [BitmapWrite [2], DirectoryWrite (map int [3..<13])]
   \<and> fst (Mkdir 5 (formatted_fs 64) (formatted_disk 64) ''/a'') = Ret True
   \<and> writes disk_a = writes (formatted_disk 64) @
        [SectorWrite 13, DirectoryWrite (map int [3..<13]), BitmapWrite [2],
         DirectoryWrite (map int [14..<24])]"
  by code_simp

section \<open>Recursive removal\<close>

text \<open>
  Claim C2 fails on the code. Scenario 4 of the specification: after \<open>mkdir /d\<close>,
  \<open>mkdir /d/e\<close> and \<open>create /d/e/f 10\<close> on a formatted disk, \<open>Remove("/d", true)\<close>
  returns true, but the bits of \<open>/d\<close>'s own header sector (13) and data sectors (14 to
  23) stay set, so the bitmap is not the one left by the format, and the root directory
  still holds the entry \<open>d\<close>. Second scenario: a file of 4000 bytes in \<open>/d\<close>; after the
  recursive removal the bits of its two child header sectors (25 and 56) stay set, because
  \<open>Deallocate\<close> clears data sectors only.
\<close>

theorem recursive_remove_leaves_sectors:
  "fst (Mkdir 5 (formatted_fs 64) (formatted_disk 64) ''/d'') = Ret True
   \<and> fst (Mkdir 5 (formatted_fs 64) disk_d ''/d/e'') = Ret True
   \<and> fst (Create 5 (formatted_fs 64) disk_de ''/d/e/f'' 10) = Ret True
   \<and> fst (Remove 5 (formatted_fs 64) disk_def ''/d'' True) = Ret True
   \<and> persisted_bitmap (formatted_fs 64) (formatted_disk 64) = replicate 13 True @ replicate 51 False
   \<and> persisted_bitmap (formatted_fs 64) disk_def = replicate 37 True @ replicate 27 False
   \<and> persisted_bitmap (formatted_fs 64) disk_def_removed = replicate 24 True @ replicate 40 False
   \<and> Directory_Find (root_directory (formatted_fs 64) disk_def_removed) ''d'' DIR = 13
   \<and> fst (Create 5 (formatted_fs 64) disk_d ''/d/big'' 4000) = Ret True
   \<and> fst (Remove 5 (formatted_fs 64) disk_dbig ''/d'' True) = Ret True
   \<and> persisted_bitmap (formatted_fs 64) disk_dbig = replicate 59 True @ replicate 5 False
   \<and> persisted_bitmap (formatted_fs 64) disk_dbig_removed =
        replicate 24 True @ [False, True] @ replicate 30 False @ [True] @ replicate 7 False"
  by code_simp

section \<open>Running out of sectors\<close>

text \<open>
  Claim C3 fails on the code. On a formatted disk of 16 sectors exactly 3 sectors are
  clear; \<open>create /x 500\<close> does not return false: it stops on
  \<^verbatim>\<open>ASSERT(fh->Allocate(freeMap, size))\<close>, with nothing written (the persisted bitmap is
  unchanged). On a formatted disk of 46 sectors 33 sectors are clear; a file of 3968
  bytes needs 34 (its header, 31 data sectors, 2 child headers), yet \<open>create /y 3968\<close>
  returns true and persists a bitmap without any clear sector: the result of the
  recursive \<open>Allocate\<close> is not looked at.
\<close>

theorem create_without_space:
  "NumClear (persisted_bitmap (formatted_fs 16) (formatted_disk 16)) = 3
   \<and> fst (Create 5 (formatted_fs 16) (formatted_disk 16) ''/x'' 500) = Abort
   \<and> writes (snd (Create 5 (formatted_fs 16) (formatted_disk 16) ''/x'' 500))
       = writes (formatted_disk 16)
   \<and> persisted_bitmap (formatted_fs 16)
        (snd (Create 5 (formatted_fs 16) (formatted_disk 16) ''/x'' 500))
       = persisted_bitmap (formatted_fs 16) (formatted_disk 16)
   \<and> NumClear (persisted_bitmap (formatted_fs 46) (formatted_disk 46)) = 33
   \<and> fst (Create 5 (formatted_fs 46) (formatted_disk 46) ''/y'' 3968) = Ret True
   \<and> NumClear (persisted_bitmap (formatted_fs 46)
        (snd (Create 5 (formatted_fs 46) (formatted_disk 46) ''/y'' 3968))) = 0"
  by code_simp

section \<open>Byte offsets and the sector mapping\<close>

text \<open>
  Claim C5 fails on the code for a header built by \<open>Allocate\<close> when the clear sectors
  run out inside the recursion. On the bitmap of \<open>create /y 3968\<close> on a formatted disk of
  46 sectors (32 clear sectors once the header sector is taken), \<open>Allocate\<close> of 3968
  bytes returns true with \<open>numDataSectors = 31\<close> but a mapping of 30 sectors (the
  second child got no data sector and its failure is ignored). Offset 0 satisfies
  \<open>0 \<le> offset / SectorSize < numDataSectors\<close>, and \<open>ByteToSector\<close> does not return
  \<open>mapping[0]\<close>: it stops on its assertion.
\<close>

theorem ByteToSector_after_short_allocation:
  "FindAndSet (persisted_bitmap (formatted_fs 46) (formatted_disk 46))
     = (13, replicate 14 True @ replicate 32 False)
   \<and> Allocate new_FileHeader (replicate 14 True @ replicate 32 False) 3968
     = Ret (True, header_3968, replicate 46 True)
   \<and> numDataSectors header_3968 = 31
   \<and> length (dataSectorMapping header_3968) = 30
   \<and> 0 \<le> (0::int) sdiv SectorSize \<and> 0 sdiv SectorSize < numDataSectors header_3968
   \<and> ByteToSector header_3968 0 = Abort"
  by code_simp

end
